theory Spec2Isabelle
  imports Main "HOL-Library.Word"
begin

section \<open>The local file system of the Core plugin\<close>

text \<open>
  This theory embeds \<^verbatim>\<open>core/fs/local/__init__.py\<close>: the class
  \<^verbatim>\<open>LocalFileSystem\<close> with its metadata queries, its planners for move, copy,
  delete and trash, and the task \<^verbatim>\<open>CopyFile\<close>.

  Python raises; the model returns. A function that can raise returns \<open>error + 'a\<close>
  with \<open>Inl\<close> for the exception. A generator is the list of the tasks it yields together
  with the exception that ends it, if one does. A function that touches the operating
  system returns the list of the calls that succeeded and of the notifications it sent,
  in order, together with the exception that stopped it, if one did.

  A leading underscore of a Python name is written as the prefix \<open>priv_\<close>.
\<close>

subsection \<open>Exceptions\<close>

text \<open>
  The subclasses of \<^verbatim>\<open>OSError\<close> the module tells apart, and every other
  \<^verbatim>\<open>OSError\<close> with its \<^verbatim>\<open>errno\<close>.
\<close>

datatype oserror =
    FileNotFoundError
  | FileExistsError
  | IsADirectoryError
  | OtherOSError int

datatype error =
    OSError oserror
  | ValueError string
  | UnsupportedOperation
  | Canceled

definition ENOENT :: int where
  "ENOENT = 2"

fun errno :: "oserror \<Rightarrow> int" where
  "errno FileNotFoundError = 2"
| "errno FileExistsError = 17"
| "errno IsADirectoryError = 21"
| "errno (OtherOSError n) = n"

text \<open>
  Modelled from the spec: \<^verbatim>\<open>core.util.filenotfounderror\<close> is not among the sources.
  The module raises what it builds for a path that is not absolute, and the spec has
  such a path fail with \<open>NotFound\<close>: the helper builds a \<open>FileNotFoundError\<close>.
\<close>

definition filenotfounderror :: "string \<Rightarrow> error" where
  "filenotfounderror path = OSError FileNotFoundError"

subsection \<open>What the operating system and the libraries answer\<close>

type_synonym byte = "8 word"

record stat_result =
  st_isdir :: bool
  st_size :: int
  st_mtime :: int
  st_dev :: int
  st_ino :: int

text \<open>
  The calls that change the file system or read file contents. A call that succeeds is
  recorded in the trace of the function that made it. \<open>Touch p exist_ok\<close> is
  \<^verbatim>\<open>Path(p).touch(exist_ok=...)\<close>, \<open>Symlink target p\<close> is
  \<^verbatim>\<open>os.symlink(target, p)\<close>, \<open>Copystat a b follow_symlinks\<close> is
  \<^verbatim>\<open>shutil.copystat\<close>, \<open>Read p i\<close> is the \<open>i\<close>-th read of the open file
  \<open>p\<close>, \<open>Write p i buf\<close> the \<open>i\<close>-th write to it. \<open>MoveToTrash p\<close> is
  \<^verbatim>\<open>core.trash.move_to_trash(p)\<close>, the trash of the host; like the calls of the
  operating system it is known by its outcome only.
\<close>

datatype oscall =
    Replace string string
  | Remove string
  | Rmdir string
  | Mkdir string
  | Touch string bool
  | MoveToTrash string
  | Symlink string string
  | Copystat string string bool
  | OpenRead string
  | OpenWrite string
  | Read string nat
  | Write string nat "byte list"

datatype event =
    Os oscall
  | NotifyAdded string
  | NotifyRemoved string
  | NotifyChanged string
  | SetProgress nat

type_synonym result = "event list \<times> error option"

text \<open>
  The functions of \<^verbatim>\<open>fman.url\<close>, \<^verbatim>\<open>os\<close>, \<^verbatim>\<open>os.path\<close> and
  \<^verbatim>\<open>pathlib\<close> that the module calls are parameters: \<open>splitscheme\<close> may raise,
  the other functions on URLs are taken to return. \<open>path_exists p\<close> is
  \<^verbatim>\<open>Path(p).exists()\<close>, which answers or raises. \<open>os_outcome\<close> says which calls
  fail and how; \<open>file_bytes\<close> is the content a file yields when read; \<open>canceled i\<close>
  is what the \<open>i\<close>-th call of \<^verbatim>\<open>check_canceled\<close> of a running task finds
  (the flag is set by another thread; the task only polls it, and
  \<^verbatim>\<open>check_canceled\<close> raises \<open>Canceled\<close> when it finds the flag set). The
  notifications of \<^verbatim>\<open>fman.fs.FileSystem\<close> and \<^verbatim>\<open>Task.set_progress\<close> are taken
  to return; they appear in the trace as events.
\<close>

record env =
  splitscheme :: "string \<Rightarrow> error + string \<times> string"
  as_human_readable :: "string \<Rightarrow> string"
  basename :: "string \<Rightarrow> string"
  dirname :: "string \<Rightarrow> string"
  url_join :: "string \<Rightarrow> string \<Rightarrow> string"
  isabs :: "string \<Rightarrow> bool"
  path_exists :: "string \<Rightarrow> oserror + bool"
  islink :: "string \<Rightarrow> bool"
  readlink :: "string \<Rightarrow> oserror + string"
  fromtimestamp :: "int \<Rightarrow> error + int"
  os_outcome :: "oscall \<Rightarrow> oserror option"
  file_bytes :: "string \<Rightarrow> byte list"
  canceled :: "nat \<Rightarrow> bool"

text \<open>
  What one planning pass is told about a path and the entries below it: the answer of
  \<^verbatim>\<open>os.stat\<close>, the exception of \<^verbatim>\<open>os.listdir\<close> if it raises, and the
  names it lists otherwise, each with the answers for that child. A child that has
  vanished after the listing is a child whose \<^verbatim>\<open>os.stat\<close> raises
  \<open>FileNotFoundError\<close>. (\<^verbatim>\<open>stat\<close> is decorated \<^verbatim>\<open>@cached\<close>: a pass asks
  once per path.)
\<close>

datatype fsnode =
  FsNode (node_stat: "oserror + stat_result") (node_listdir_error: "oserror option")
    (node_children: "(string \<times> fsnode) list")

fun os_listdir :: "fsnode \<Rightarrow> error + string list" where
  "os_listdir (FsNode st None cs) = Inr (map fst cs)"
| "os_listdir (FsNode st (Some e) cs) = Inl (OSError e)"

fun lift_os :: "oserror + 'a \<Rightarrow> error + 'a" where
  "lift_os (Inl e) = Inl (OSError e)"
| "lift_os (Inr x) = Inr x"

subsection \<open>Paths and metadata queries\<close>

definition scheme :: string where
  "scheme = ''file://''"

definition priv_url_to_os_path :: "env \<Rightarrow> string \<Rightarrow> string" where
  "priv_url_to_os_path E path = as_human_readable E (scheme @ path)"

definition exists :: "env \<Rightarrow> string \<Rightarrow> error + bool" where
  "exists E path =
     (let os_path = priv_url_to_os_path E path
      in if isabs E os_path then lift_os (path_exists E os_path) else Inr False)"

text \<open>
  \<open>stat E a path\<close>: \<open>a\<close> is what \<^verbatim>\<open>os.stat(os_path)\<close> returns or raises.
\<close>

definition stat :: "env \<Rightarrow> oserror + stat_result \<Rightarrow> string \<Rightarrow> error + stat_result" where
  "stat E a path =
     (let os_path = priv_url_to_os_path E path
      in if \<not> isabs E os_path then Inl (filenotfounderror path) else lift_os a)"

definition iterdir :: "env \<Rightarrow> error + string list \<Rightarrow> string \<Rightarrow> error + string list" where
  "iterdir E listing path =
     (let os_path = priv_url_to_os_path E path
      in if \<not> isabs E os_path then Inl (filenotfounderror path) else listing)"

definition is_dir :: "env \<Rightarrow> oserror + stat_result \<Rightarrow> string \<Rightarrow> error + bool" where
  "is_dir E a existing_path =
     (case stat E a existing_path of Inl e \<Rightarrow> Inl e | Inr s \<Rightarrow> Inr (st_isdir s))"

definition size_bytes :: "env \<Rightarrow> oserror + stat_result \<Rightarrow> string \<Rightarrow> error + int" where
  "size_bytes E a path =
     (case stat E a path of Inl e \<Rightarrow> Inl e | Inr s \<Rightarrow> Inr (st_size s))"

definition modified_datetime :: "env \<Rightarrow> oserror + stat_result \<Rightarrow> string \<Rightarrow> error + int" where
  "modified_datetime E a path =
     (case stat E a path of Inl e \<Rightarrow> Inl e | Inr s \<Rightarrow> fromtimestamp E (st_mtime s))"

definition samestat :: "stat_result \<Rightarrow> stat_result \<Rightarrow> bool" where
  "samestat s1 s2 = (st_ino s1 = st_ino s2 \<and> st_dev s1 = st_dev s2)"

definition samefile ::
  "env \<Rightarrow> oserror + stat_result \<Rightarrow> oserror + stat_result \<Rightarrow> string \<Rightarrow> string \<Rightarrow> error + bool" where
  "samefile E a1 a2 path1 path2 =
     (case stat E a1 path1 of
        Inl e \<Rightarrow> Inl e
      | Inr s1 \<Rightarrow>
          (case stat E a2 path2 of
             Inl e \<Rightarrow> Inl e
           | Inr s2 \<Rightarrow> Inr (samestat s1 s2)))"

definition priv_check_transfer_precnds :: "env \<Rightarrow> string \<Rightarrow> string \<Rightarrow> error + string \<times> string" where
  "priv_check_transfer_precnds E src_url dst_url =
     (case splitscheme E src_url of
        Inl e \<Rightarrow> Inl e
      | Inr (src_scheme, src_path) \<Rightarrow>
          (case splitscheme E dst_url of
             Inl e \<Rightarrow> Inl e
           | Inr (dst_scheme, dst_path) \<Rightarrow>
               if src_scheme \<noteq> scheme \<or> dst_scheme \<noteq> scheme then Inl UnsupportedOperation
               else if \<not> isabs E (priv_url_to_os_path E dst_path)
               then Inl (ValueError ''Destination path must be absolute'')
               else Inr (src_path, dst_path)))"

subsection \<open>Tasks and plans\<close>

text \<open>
  A \<^verbatim>\<open>Task\<close> stores a title, a size, and the callable with its arguments that its
  call runs. The callables the module hands out are its own bound methods and the two
  removal functions of \<^verbatim>\<open>os\<close>. A size that is not passed is \<open>None\<close>.
  \<^verbatim>\<open>CopyFile\<close> is the subclass that overrides the call; it keeps the two URLs
  (\<open>Fn_CopyFile\<close>).
\<close>

datatype delete_fn = os_rmdir | os_remove

datatype task_fn =
    Fn_rename string string
  | Fn_delete string
  | Fn_mkdir string
  | Fn_do_delete string delete_fn
  | Fn_do_trash string string
  | Fn_CopyFile string string

datatype task =
  Task (task_title: string) (task_size: "int option") (task_fn: task_fn)

text \<open>
  A generator: the tasks it yields, then the exception that ends it, if any.
\<close>

type_synonym plan = "task list \<times> error option"

text \<open>\<^verbatim>\<open>s.rsplit('/', 1)[-1]\<close>: what follows the last slash, all of \<open>s\<close> if it has none.\<close>

definition rsplit_last :: "string \<Rightarrow> string" where
  "rsplit_last s = rev (takeWhile (\<lambda>c. c \<noteq> CHR ''/'') (rev s))"

definition CopyFile :: "env \<Rightarrow> string \<Rightarrow> string \<Rightarrow> int \<Rightarrow> task" where
  "CopyFile E src_url dst_url size_bytes' =
     Task (''Copying '' @ basename E src_url) (Some size_bytes') (Fn_CopyFile src_url dst_url)"

subsection \<open>Planning trash and delete\<close>

definition prepare_trash :: "env \<Rightarrow> string \<Rightarrow> plan" where
  "prepare_trash E path =
     (let os_path = priv_url_to_os_path E path
      in if \<not> isabs E os_path then ([], Some (filenotfounderror path))
         else ([Task (''Deleting '' @ rsplit_last path) (Some 1) (Fn_do_trash path os_path)], None))"

text \<open>
  \<open>prepare_delete_children\<close> is the \<^verbatim>\<open>for name in self.iterdir(path)\<close> loop: the
  tasks of a child are yielded as they come; a \<open>FileNotFoundError\<close> that ends a child's
  generator is passed over, any other exception ends the loop.
\<close>

fun prepare_delete :: "env \<Rightarrow> fsnode \<Rightarrow> string \<Rightarrow> plan"
  and prepare_delete_children :: "env \<Rightarrow> (string \<times> fsnode) list \<Rightarrow> string \<Rightarrow> plan" where
  "prepare_delete E (FsNode st le cs) path =
     (case is_dir E st path of
        Inl e \<Rightarrow> ([], Some e)
      | Inr True \<Rightarrow>
          (case iterdir E (os_listdir (FsNode st le cs)) path of
             Inl e \<Rightarrow> ([], Some e)
           | Inr names \<Rightarrow>
               (case prepare_delete_children E cs path of
                  (ts, Some e) \<Rightarrow> (ts, Some e)
                | (ts, None) \<Rightarrow>
                    (ts @ [Task (''Deleting '' @ rsplit_last path) (Some 1)
                             (Fn_do_delete path os_rmdir)], None)))
      | Inr False \<Rightarrow>
          ([Task (''Deleting '' @ rsplit_last path) (Some 1) (Fn_do_delete path os_remove)],
           None))"
| "prepare_delete_children E [] path = ([], None)"
| "prepare_delete_children E ((name, c) # rest) path =
     (case prepare_delete E c (path @ ''/'' @ name) of
        (ts, Some e) \<Rightarrow>
          if e = OSError FileNotFoundError
          then (case prepare_delete_children E rest path of (ts', r) \<Rightarrow> (ts @ ts', r))
          else (ts, Some e)
      | (ts, None) \<Rightarrow>
          (case prepare_delete_children E rest path of (ts', r) \<Rightarrow> (ts @ ts', r)))"

subsection \<open>Planning copy and move\<close>

fun priv_prepare_copy :: "env \<Rightarrow> fsnode \<Rightarrow> string \<Rightarrow> string \<Rightarrow> bool \<Rightarrow> plan"
  and priv_prepare_copy_children ::
    "env \<Rightarrow> (string \<times> fsnode) list \<Rightarrow> string \<Rightarrow> string \<Rightarrow> bool \<Rightarrow> plan" where
  "priv_prepare_copy E (FsNode st le cs) src_url dst_url measure_size =
     (case priv_check_transfer_precnds E src_url dst_url of
        Inl e \<Rightarrow> ([], Some e)
      | Inr (src_path, dst_path) \<Rightarrow>
          (case is_dir E st src_path of
             Inl e \<Rightarrow> ([], Some e)
           | Inr True \<Rightarrow>
               (case iterdir E (os_listdir (FsNode st le cs)) src_path of
                  Inl e \<Rightarrow>
                    ([Task (''Creating '' @ basename E dst_url) None (Fn_mkdir dst_path)], Some e)
                | Inr names \<Rightarrow>
                    (case priv_prepare_copy_children E cs src_url dst_url measure_size of
                       (ts, r) \<Rightarrow>
                         (Task (''Creating '' @ basename E dst_url) None (Fn_mkdir dst_path) # ts,
                          r)))
           | Inr False \<Rightarrow>
               (case (if measure_size then size_bytes E st src_path else Inr 0) of
                  Inl e \<Rightarrow> ([], Some e)
                | Inr size' \<Rightarrow> ([CopyFile E src_url dst_url size'], None))))"
| "priv_prepare_copy_children E [] src_url dst_url measure_size = ([], None)"
| "priv_prepare_copy_children E ((name, c) # rest) src_url dst_url measure_size =
     (case priv_prepare_copy E c (url_join E src_url name) (url_join E dst_url name)
             measure_size of
        (ts, Some e) \<Rightarrow>
          if e = OSError FileNotFoundError
          then (case priv_prepare_copy_children E rest src_url dst_url measure_size of
                  (ts', r) \<Rightarrow> (ts @ ts', r))
          else (ts, Some e)
      | (ts, None) \<Rightarrow>
          (case priv_prepare_copy_children E rest src_url dst_url measure_size of
             (ts', r) \<Rightarrow> (ts @ ts', r)))"

text \<open>
  \<^verbatim>\<open>prepare_copy\<close> is an ordinary function: the check raises at the call
  (\<open>Inl\<close>), and otherwise the generator is returned.
\<close>

definition prepare_copy :: "env \<Rightarrow> fsnode \<Rightarrow> string \<Rightarrow> string \<Rightarrow> error + plan" where
  "prepare_copy E n src_url dst_url =
     (case priv_check_transfer_precnds E src_url dst_url of
        Inl e \<Rightarrow> Inl e
      | Inr _ \<Rightarrow> Inr (priv_prepare_copy E n src_url dst_url True))"

text \<open>
  \<open>priv_prepare_move E n dst_dir_stat\<close>: \<open>n\<close> holds the answers for the source,
  \<open>dst_dir_stat\<close> is the answer of \<^verbatim>\<open>os.stat\<close> for the parent of the destination.
\<close>

definition priv_prepare_move ::
  "env \<Rightarrow> fsnode \<Rightarrow> oserror + stat_result \<Rightarrow> string \<Rightarrow> string \<Rightarrow> bool \<Rightarrow> plan" where
  "priv_prepare_move E n dst_dir_stat src_url dst_url measure_size =
     (case priv_check_transfer_precnds E src_url dst_url of
        Inl e \<Rightarrow> ([], Some e)
      | Inr (src_path, dst_path) \<Rightarrow>
          (case stat E (node_stat n) src_path of
             Inl e \<Rightarrow> ([], Some e)
           | Inr src_stat \<Rightarrow>
               (case splitscheme E (dirname E dst_url) of
                  Inl e \<Rightarrow> ([], Some e)
                | Inr (dst_dir_scheme, dst_dir_path) \<Rightarrow>
                    (case stat E dst_dir_stat dst_dir_path of
                       Inl e \<Rightarrow> ([], Some e)
                     | Inr dst_dir \<Rightarrow>
                         if st_dev src_stat = st_dev dst_dir
                         then ([Task (''Moving '' @ basename E src_url) (Some 1)
                                  (Fn_rename src_url dst_url)], None)
                         else
                           (case priv_prepare_copy E n src_url dst_url measure_size of
                              (ts, Some e) \<Rightarrow> (ts, Some e)
                            | (ts, None) \<Rightarrow>
                                (ts @ [Task (''Postprocessing '' @ basename E src_url) None
                                         (Fn_delete src_path)], None))))))"

definition prepare_move ::
  "env \<Rightarrow> fsnode \<Rightarrow> oserror + stat_result \<Rightarrow> string \<Rightarrow> string \<Rightarrow> error + plan" where
  "prepare_move E n dst_dir_stat src_url dst_url =
     (case priv_check_transfer_precnds E src_url dst_url of
        Inl e \<Rightarrow> Inl e
      | Inr _ \<Rightarrow> Inr (priv_prepare_move E n dst_dir_stat src_url dst_url True))"

subsection \<open>What the tasks do\<close>

text \<open>
  \<open>os_call\<close> makes one call: it is recorded if it succeeds and raises otherwise.
  \<open>and_then r k\<close> is \<open>r\<close> followed by \<open>k\<close>, which runs only if \<open>r\<close> did not raise.
\<close>

definition os_call :: "env \<Rightarrow> oscall \<Rightarrow> result" where
  "os_call E c =
     (case os_outcome E c of Some e \<Rightarrow> ([], Some (OSError e)) | None \<Rightarrow> ([Os c], None))"

definition and_then :: "result \<Rightarrow> result \<Rightarrow> result" where
  "and_then r k =
     (case r of
        (ev, Some e) \<Rightarrow> (ev, Some e)
      | (ev, None) \<Rightarrow> (case k of (ev', r') \<Rightarrow> (ev @ ev', r')))"

definition touch :: "env \<Rightarrow> string \<Rightarrow> result" where
  "touch E path =
     (let os_path = priv_url_to_os_path E path
      in if \<not> isabs E os_path then ([], Some (ValueError ''Path must be absolute''))
         else
           (case os_outcome E (Touch os_path False) of
              Some FileExistsError \<Rightarrow> os_call E (Touch os_path True)
            | Some e \<Rightarrow> ([], Some (OSError e))
            | None \<Rightarrow> ([Os (Touch os_path False), NotifyAdded path], None)))"

definition mkdir :: "env \<Rightarrow> string \<Rightarrow> result" where
  "mkdir E path =
     (let os_path = priv_url_to_os_path E path
      in if \<not> isabs E os_path then ([], Some (ValueError ''Path must be absolute''))
         else
           (case os_outcome E (Mkdir os_path) of
              Some FileNotFoundError \<Rightarrow> ([], Some (OSError FileNotFoundError))
            | Some IsADirectoryError \<Rightarrow> ([], Some (OSError FileExistsError))
            | Some e \<Rightarrow>
                if errno e = ENOENT then ([], Some (filenotfounderror path))
                else
                  (case path_exists E os_path of
                     Inl e' \<Rightarrow> ([], Some (OSError e'))
                   | Inr True \<Rightarrow> ([], Some (OSError FileExistsError))
                   | Inr False \<Rightarrow> ([], Some (OSError e)))
            | None \<Rightarrow> ([Os (Mkdir os_path), NotifyAdded path], None)))"

definition priv_rename :: "env \<Rightarrow> string \<Rightarrow> string \<Rightarrow> result" where
  "priv_rename E src_url dst_url =
     (case splitscheme E src_url of
        Inl e \<Rightarrow> ([], Some e)
      | Inr (src_scheme, src_path) \<Rightarrow>
          (let os_src_path = priv_url_to_os_path E src_path
           in case splitscheme E dst_url of
                Inl e \<Rightarrow> ([], Some e)
              | Inr (dst_scheme, dst_path) \<Rightarrow>
                  (let os_dst_path = priv_url_to_os_path E dst_path
                   in and_then (os_call E (Replace os_src_path os_dst_path))
                        ([NotifyRemoved src_path, NotifyAdded dst_path], None))))"

definition priv_do_trash :: "env \<Rightarrow> string \<Rightarrow> string \<Rightarrow> result" where
  "priv_do_trash E path os_path =
     and_then (os_call E (MoveToTrash os_path)) ([NotifyRemoved path], None)"

fun apply_delete_fn :: "delete_fn \<Rightarrow> string \<Rightarrow> oscall" where
  "apply_delete_fn os_rmdir path = Rmdir path"
| "apply_delete_fn os_remove path = Remove path"

definition priv_do_delete :: "env \<Rightarrow> string \<Rightarrow> delete_fn \<Rightarrow> result" where
  "priv_do_delete E path delete_fn' =
     and_then (os_call E (apply_delete_fn delete_fn' path)) ([NotifyRemoved path], None)"

text \<open>
  The \<^verbatim>\<open>while True\<close> loop of \<^verbatim>\<open>CopyFile.__call__\<close>. \<open>i\<close> counts the rounds,
  \<open>rest\<close> is what the source has left to give; a read returns the next
  \<^verbatim>\<open>16 * 1024\<close> bytes of it, fewer at the end. Closing the two files is taken to
  succeed.
\<close>

function copy_loop :: "env \<Rightarrow> string \<Rightarrow> string \<Rightarrow> nat \<Rightarrow> byte list \<Rightarrow> nat \<Rightarrow> result" where
  "copy_loop E src dst i rest num_written =
     (if canceled E i then ([], Some Canceled)
      else
        (case os_outcome E (Read src i) of
           Some e \<Rightarrow> ([], Some (OSError e))
         | None \<Rightarrow>
             if take (16 * 1024) rest = [] then ([Os (Read src i)], None)
             else
               (case os_outcome E (Write dst i (take (16 * 1024) rest)) of
                  Some e \<Rightarrow> ([Os (Read src i)], Some (OSError e))
                | None \<Rightarrow>
                    (case copy_loop E src dst (Suc i) (drop (16 * 1024) rest)
                            (num_written + length (take (16 * 1024) rest)) of
                       (ev, r) \<Rightarrow>
                         (Os (Read src i) # Os (Write dst i (take (16 * 1024) rest))
                            # SetProgress (num_written + length (take (16 * 1024) rest)) # ev,
                          r)))))"
  by pat_completeness auto
termination
  by (relation "measure (\<lambda>(E, src, dst, i, rest, num_written). length rest)") auto

declare copy_loop.simps [simp del]

definition CopyFile_call :: "env \<Rightarrow> string \<Rightarrow> string \<Rightarrow> result" where
  "CopyFile_call E src_url dst_url =
     (case splitscheme E dst_url of
        Inl e \<Rightarrow> ([], Some e)
      | Inr (dst_scheme, dst_urlpath) \<Rightarrow>
          (case exists E dst_urlpath of
             Inl e \<Rightarrow> ([], Some e)
           | Inr dst_existed \<Rightarrow>
               (let src = as_human_readable E src_url;
                    dst = as_human_readable E dst_url
                in and_then
                     (if islink E src
                      then (case readlink E src of
                              Inl e \<Rightarrow> ([], Some (OSError e))
                            | Inr target \<Rightarrow> os_call E (Symlink target dst))
                      else and_then (os_call E (OpenRead src))
                             (and_then (os_call E (OpenWrite dst))
                                (copy_loop E src dst 0 (file_bytes E src) 0)))
                     (and_then (os_call E (Copystat src dst False))
                        (if \<not> dst_existed then ([NotifyAdded dst_urlpath], None)
                         else ([], None))))))"

subsection \<open>Calling tasks; the entry points that run their plan\<close>

text \<open>
  A task's call applies the stored callable. \<^verbatim>\<open>delete\<close> runs the tasks of
  \<^verbatim>\<open>prepare_delete\<close> one by one as the generator yields them, and the stored
  callable of a task may be \<^verbatim>\<open>delete\<close> itself. The recursion ends because
  \<^verbatim>\<open>prepare_delete\<close> only yields tasks that call \<^verbatim>\<open>_do_delete\<close>.
\<close>

lemma prepare_delete_task_fns:
  "t \<in> set (fst (prepare_delete E n p)) \<Longrightarrow> \<exists>q f. task_fn t = Fn_do_delete q f"
  "t \<in> set (fst (prepare_delete_children E cs p)) \<Longrightarrow> \<exists>q f. task_fn t = Fn_do_delete q f"
  by (induction E n p and E cs p rule: prepare_delete_prepare_delete_children.induct)
     (auto split: sum.splits bool.splits prod.splits option.splits if_splits)

definition call_weight :: "env \<Rightarrow> fsnode \<Rightarrow> task \<Rightarrow> nat" where
  "call_weight E n t =
     (case task_fn t of Fn_delete p \<Rightarrow> 3 + length (fst (prepare_delete E n p)) | _ \<Rightarrow> 0)"

lemma call_weight_plan: "t \<in> set (fst (prepare_delete E n p)) \<Longrightarrow> call_weight E n' t = 0"
  by (auto dest!: prepare_delete_task_fns(1) simp: call_weight_def)

function call_task :: "env \<Rightarrow> fsnode \<Rightarrow> task \<Rightarrow> result"
  and delete :: "env \<Rightarrow> fsnode \<Rightarrow> string \<Rightarrow> result"
  and run_tasks :: "env \<Rightarrow> fsnode \<Rightarrow> task list \<Rightarrow> result" where
  "call_task E n (Task title sz (Fn_rename src_url dst_url)) = priv_rename E src_url dst_url"
| "call_task E n (Task title sz (Fn_delete path)) = delete E n path"
| "call_task E n (Task title sz (Fn_mkdir path)) = mkdir E path"
| "call_task E n (Task title sz (Fn_do_delete path delete_fn')) = priv_do_delete E path delete_fn'"
| "call_task E n (Task title sz (Fn_do_trash path os_path)) = priv_do_trash E path os_path"
| "call_task E n (Task title sz (Fn_CopyFile src_url dst_url)) = CopyFile_call E src_url dst_url"
| "delete E n path =
     (case prepare_delete E n path of (ts, r) \<Rightarrow> and_then (run_tasks E n ts) ([], r))"
| "run_tasks E n [] = ([], None)"
| "run_tasks E n (t # ts) =
     (case call_task E n t of
        (ev, Some e) \<Rightarrow> (ev, Some e)
      | (ev, None) \<Rightarrow> (case run_tasks E n ts of (ev', r) \<Rightarrow> (ev @ ev', r)))"
  by pat_completeness auto
termination
proof (relation "measure (\<lambda>x. case x of
          Inl (E, n, t) \<Rightarrow> call_weight E n t
        | Inr (Inl (E, n, p)) \<Rightarrow> 2 + length (fst (prepare_delete E n p))
        | Inr (Inr (E, n, ts)) \<Rightarrow> 1 + length ts + sum_list (map (call_weight E n) ts))",
    goal_cases)
  case 1
  show ?case by simp
next
  case (2 E n title sz path)
  show ?case by (simp add: call_weight_def)
next
  case (3 E n path ts r)
  then have ts: "ts = fst (prepare_delete E n path)"
    by (metis fst_conv)
  have "sum_list (map (call_weight E n) ts) = 0"
    unfolding ts by (simp add: call_weight_plan)
  then show ?case unfolding ts by simp
next
  case (4 E n t ts)
  show ?case by simp
next
  case (5 E n t ts ev r)
  show ?case by simp
qed

declare delete.simps [simp del]

text \<open>The loop \<^verbatim>\<open>for task in plan: task()\<close>.\<close>

definition run_plan :: "env \<Rightarrow> fsnode \<Rightarrow> plan \<Rightarrow> result" where
  "run_plan E n pl = (case pl of (ts, r) \<Rightarrow> and_then (run_tasks E n ts) ([], r))"

definition move ::
  "env \<Rightarrow> fsnode \<Rightarrow> oserror + stat_result \<Rightarrow> string \<Rightarrow> string \<Rightarrow> result" where
  "move E n dst_dir_stat src_url dst_url =
     (case priv_check_transfer_precnds E src_url dst_url of
        Inl e \<Rightarrow> ([], Some e)
      | Inr _ \<Rightarrow> run_plan E n (priv_prepare_move E n dst_dir_stat src_url dst_url False))"

definition copy :: "env \<Rightarrow> fsnode \<Rightarrow> string \<Rightarrow> string \<Rightarrow> result" where
  "copy E n src_url dst_url =
     (case priv_check_transfer_precnds E src_url dst_url of
        Inl e \<Rightarrow> ([], Some e)
      | Inr _ \<Rightarrow> run_plan E n (priv_prepare_copy E n src_url dst_url False))"

definition move_to_trash :: "env \<Rightarrow> fsnode \<Rightarrow> string \<Rightarrow> result" where
  "move_to_trash E n path = run_plan E n (prepare_trash E path)"

text \<open>
  \<^verbatim>\<open>prepare_delete\<close> and \<^verbatim>\<open>prepare_trash\<close> are generator functions: their
  bodies contain \<^verbatim>\<open>yield\<close>, so a call runs none of the body and returns the
  generator. \<^verbatim>\<open>prepare_move\<close> and \<^verbatim>\<open>prepare_copy\<close> are ordinary functions that
  return a generator. Seen from the caller, each of the four either raises at the call
  or returns a generator.
\<close>

definition call_prepare_delete :: "env \<Rightarrow> fsnode \<Rightarrow> string \<Rightarrow> error + plan" where
  "call_prepare_delete E n path = Inr (prepare_delete E n path)"

definition call_prepare_trash :: "env \<Rightarrow> string \<Rightarrow> error + plan" where
  "call_prepare_trash E path = Inr (prepare_trash E path)"

subsection \<open>A source tree that holds still\<close>

text \<open>
  \<open>count_dirs\<close> counts the directories of a subtree as \<^verbatim>\<open>os.stat\<close> reports them.
  \<open>stable\<close> says that planning a copy of the subtree meets no refusal: at every entry
  the URLs pass the precondition check and the source path is absolute, every entry can
  be stat'ed and every directory can be listed. \<open>is_creating\<close> recognises the tasks
  that call \<open>mkdir\<close>.
\<close>

fun count_dirs :: "fsnode \<Rightarrow> nat"
  and count_dirs_children :: "(string \<times> fsnode) list \<Rightarrow> nat" where
  "count_dirs (FsNode st le cs) =
     (case st of
        Inl e \<Rightarrow> 0
      | Inr s \<Rightarrow> if st_isdir s then Suc (count_dirs_children cs) else 0)"
| "count_dirs_children [] = 0"
| "count_dirs_children ((name, c) # rest) = count_dirs c + count_dirs_children rest"

fun stable :: "env \<Rightarrow> fsnode \<Rightarrow> string \<Rightarrow> string \<Rightarrow> bool"
  and stable_children :: "env \<Rightarrow> (string \<times> fsnode) list \<Rightarrow> string \<Rightarrow> string \<Rightarrow> bool" where
  "stable E (FsNode st le cs) src_url dst_url =
     (case priv_check_transfer_precnds E src_url dst_url of
        Inl e \<Rightarrow> False
      | Inr (src_path, dst_path) \<Rightarrow>
          isabs E (priv_url_to_os_path E src_path)
          \<and> (case st of
                Inl e \<Rightarrow> False
              | Inr s \<Rightarrow>
                  if st_isdir s then le = None \<and> stable_children E cs src_url dst_url
                  else True))"
| "stable_children E [] src_url dst_url = True"
| "stable_children E ((name, c) # rest) src_url dst_url =
     (stable E c (url_join E src_url name) (url_join E dst_url name)
      \<and> stable_children E rest src_url dst_url)"

fun is_creating :: "task \<Rightarrow> bool" where
  "is_creating (Task title sz (Fn_mkdir path)) = True"
| "is_creating t = False"

subsection \<open>An environment to evaluate in\<close>

text \<open>
  A POSIX-like instance of the parameters, used where a statement is evaluated at a
  concrete input: a URL is split after the first \<^verbatim>\<open>://\<close>, a \<^verbatim>\<open>file://\<close> URL
  reads as its path, a path is absolute if it starts with a slash, every call to the
  operating system succeeds, no path exists, files are empty and nobody cancels.
\<close>

fun find_scheme :: "string \<Rightarrow> string \<Rightarrow> error + string \<times> string" where
  "find_scheme acc [] = Inl (ValueError ''Not a valid URL'')"
| "find_scheme acc (c # cs) =
     (if take 3 (c # cs) = ''://'' then Inr (acc @ ''://'', drop 3 (c # cs))
      else find_scheme (acc @ [c]) cs)"

definition posix_env :: env where
  "posix_env =
     \<lparr> splitscheme = find_scheme [],
       as_human_readable =
         (\<lambda>url. case find_scheme [] url of
                   Inr (sch, path) \<Rightarrow> if sch = ''file://'' then path else url
                 | Inl e \<Rightarrow> url),
       basename = rsplit_last,
       dirname = (\<lambda>url. rev (drop 1 (dropWhile (\<lambda>c. c \<noteq> CHR ''/'') (rev url)))),
       url_join = (\<lambda>url name. url @ ''/'' @ name),
       isabs = (\<lambda>p. take 1 p = ''/''),
       path_exists = (\<lambda>p. Inr False),
       islink = (\<lambda>p. False),
       readlink = (\<lambda>p. Inl (OtherOSError 22)),
       fromtimestamp = Inr,
       os_outcome = (\<lambda>c. None),
       file_bytes = (\<lambda>p. []),
       canceled = (\<lambda>i. False) \<rparr>"

text \<open>Answers of the operating system for a file, a directory and a vanished entry.\<close>

definition stat_of :: "bool \<Rightarrow> int \<Rightarrow> int \<Rightarrow> stat_result" where
  "stat_of d sz dev = \<lparr>st_isdir = d, st_size = sz, st_mtime = 0, st_dev = dev, st_ino = 0\<rparr>"

definition file_node :: "int \<Rightarrow> fsnode" where
  "file_node sz = FsNode (Inr (stat_of False sz 1)) (Some (OtherOSError 20)) []"

definition dir_node :: "(string \<times> fsnode) list \<Rightarrow> fsnode" where
  "dir_node cs = FsNode (Inr (stat_of True 0 1)) None cs"

definition gone_node :: fsnode where
  "gone_node = FsNode (Inl FileNotFoundError) (Some FileNotFoundError) []"

text \<open>The paths a call hands to the operating system.\<close>

fun oscall_paths :: "oscall \<Rightarrow> string list" where
  "oscall_paths (Replace a b) = [a, b]"
| "oscall_paths (Remove p) = [p]"
| "oscall_paths (Rmdir p) = [p]"
| "oscall_paths (Mkdir p) = [p]"
| "oscall_paths (Touch p b) = [p]"
| "oscall_paths (MoveToTrash p) = [p]"
| "oscall_paths (Symlink target p) = [p]"
| "oscall_paths (Copystat a b follow_symlinks) = [a, b]"
| "oscall_paths (OpenRead p) = [p]"
| "oscall_paths (OpenWrite p) = [p]"
| "oscall_paths (Read p i) = [p]"
| "oscall_paths (Write p i buf) = [p]"

text \<open>
  A variant in which the native form of a path differs from its URL form: slashes
  become backslashes, as on Windows.
\<close>

definition backslash_env :: env where
  "backslash_env =
     posix_env \<lparr> as_human_readable :=
                   (\<lambda>url. map (\<lambda>c. if c = CHR ''/'' then CHR 0x5C else c) (drop 7 url)),
                 isabs := (\<lambda>p. take 1 p = [CHR 0x5C]) \<rparr>"

lemmas backslash_eval =
  backslash_env_def posix_env_def scheme_def priv_url_to_os_path_def
  stat_def is_dir_def iterdir_def filenotfounderror_def rsplit_last_def
  stat_of_def file_node_def dir_node_def

text \<open>The calls that open a file or move its content.\<close>

fun is_read_or_write :: "oscall \<Rightarrow> bool" where
  "is_read_or_write (OpenRead p) = True"
| "is_read_or_write (OpenWrite p) = True"
| "is_read_or_write (Read p i) = True"
| "is_read_or_write (Write p i buf) = True"
| "is_read_or_write c = False"

text \<open>A variant with one symbolic link, \<^verbatim>\<open>/a/l\<close>, whose target is \<^verbatim>\<open>target\<close>.\<close>

definition link_env :: env where
  "link_env =
     posix_env \<lparr> islink := (\<lambda>p. p = ''/a/l''),
                 readlink := (\<lambda>p. if p = ''/a/l'' then Inr ''target'' else Inl (OtherOSError 22)) \<rparr>"

text \<open>
  The bytes that a trace writes to a file, and the events that the streaming branch of
  \<open>CopyFile\<close> can leave in a trace before it is done.
\<close>

fun bytes_written :: "string \<Rightarrow> event list \<Rightarrow> byte list" where
  "bytes_written p [] = []"
| "bytes_written p (Os (Write q i buf) # ev) =
     (if q = p then buf @ bytes_written p ev else bytes_written p ev)"
| "bytes_written p (e # ev) = bytes_written p ev"

fun is_copy_step :: "string \<Rightarrow> string \<Rightarrow> event \<Rightarrow> bool" where
  "is_copy_step src dst (Os (OpenRead p)) = (p = src)"
| "is_copy_step src dst (Os (OpenWrite p)) = (p = dst)"
| "is_copy_step src dst (Os (Read p i)) = (p = src)"
| "is_copy_step src dst (Os (Write p i buf)) = (p = dst)"
| "is_copy_step src dst (SetProgress n) = True"
| "is_copy_step src dst e = False"

text \<open>
  A variant in which every file holds 40000 zero bytes and the cancellation flag is
  found set from the third check on.
\<close>

definition cancel_env :: env where
  "cancel_env =
     posix_env \<lparr> file_bytes := (\<lambda>p. replicate 40000 0), canceled := (\<lambda>i. 2 \<le> i) \<rparr>"

lemmas posix_eval =
  posix_env_def scheme_def priv_url_to_os_path_def priv_check_transfer_precnds_def
  stat_def is_dir_def size_bytes_def iterdir_def filenotfounderror_def rsplit_last_def
  stat_of_def file_node_def dir_node_def gone_node_def CopyFile_def

section \<open>Basic facts\<close>

lemma and_then_None [simp]: "and_then (ev, None) k = (ev @ fst k, snd k)"
  by (simp add: and_then_def split: prod.splits)

lemma and_then_Some [simp]: "and_then (ev, Some e) k = (ev, Some e)"
  by (simp add: and_then_def)

lemma and_then_return [simp]: "and_then r ([], None) = r"
  by (cases r) (auto simp: and_then_def split: option.splits)

lemma result_case_id [simp]:
  "(case x of (ev, None) \<Rightarrow> (ev, None) | (ev, Some e) \<Rightarrow> (ev, Some e)) = (x :: result)"
  by (simp split: prod.splits option.splits)

lemma run_tasks_single [simp]: "run_tasks E n [t] = call_task E n t"
  by (simp split: prod.splits option.splits)

lemma run_tasks_append:
  "run_tasks E n (ts @ ts') = and_then (run_tasks E n ts) (run_tasks E n ts')"
proof (induction ts)
  case Nil
  show ?case by (cases "run_tasks E n ts'") simp
next
  case (Cons t ts)
  show ?case
  proof (cases "call_task E n t")
    case (Pair ev r)
    show ?thesis
    proof (cases r)
      case None
      with Pair Cons show ?thesis
        by (cases "run_tasks E n ts"; cases "run_tasks E n ts'")
           (auto simp: and_then_def split: option.splits)
    next
      case (Some e)
      with Pair show ?thesis by simp
    qed
  qed
qed

lemma run_plan_no_tasks [simp]: "run_plan E n ([], r) = ([], r)"
  by (simp add: run_plan_def)

lemma delete_file:
  assumes "is_dir E (node_stat n) path = Inr False"
  shows "delete E n path = priv_do_delete E path os_remove"
proof (cases n)
  case (FsNode st le cs)
  with assms show ?thesis
    by (simp add: delete.simps)
qed

lemma delete_dir:
  assumes "is_dir E st path = Inr True"
    and "isabs E (priv_url_to_os_path E path)"
  shows "delete E (FsNode st None cs) path =
     (case prepare_delete_children E cs path of
        (ts, r) \<Rightarrow>
          and_then (run_tasks E (FsNode st None cs) ts)
            (case r of Some e \<Rightarrow> ([], Some e) | None \<Rightarrow> priv_do_delete E path os_rmdir))"
proof (cases "prepare_delete_children E cs path")
  case (Pair ts r)
  show ?thesis
  proof (cases r)
    case None
    with Pair assms show ?thesis
      by (simp add: delete.simps iterdir_def run_tasks_append)
  next
    case (Some e)
    with Pair assms show ?thesis
      by (simp add: delete.simps iterdir_def)
  qed
qed

lemma check_transfer_split:
  assumes "priv_check_transfer_precnds E src_url dst_url = Inr (src_path, dst_path)"
  shows "splitscheme E src_url = Inr (scheme, src_path)
         \<and> splitscheme E dst_url = Inr (scheme, dst_path)
         \<and> isabs E (priv_url_to_os_path E dst_path)"
  using assms
  by (auto simp: priv_check_transfer_precnds_def split: sum.splits prod.splits if_splits)

lemma prepare_delete_task_paths:
  "t \<in> set (fst (prepare_delete E n p)) \<Longrightarrow>
     \<exists>q f. task_fn t = Fn_do_delete q f \<and> (\<exists>sfx. q = p @ sfx)"
  "t \<in> set (fst (prepare_delete_children E cs p)) \<Longrightarrow>
     \<exists>q f. task_fn t = Fn_do_delete q f \<and> (\<exists>sfx. q = p @ sfx)"
proof (induction E n p and E cs p rule: prepare_delete_prepare_delete_children.induct)
  case (1 E st le cs path)
  then show ?case
    by (auto split: sum.splits bool.splits prod.splits option.splits if_splits)
next
  case (2 E path)
  then show ?case by simp
next
  case (3 E name c rest path)
  then show ?case
    by (fastforce split: sum.splits bool.splits prod.splits option.splits if_splits)
qed

lemma copy_loop_calls:
  "Os c \<in> set (fst (copy_loop E src dst i rest nw)) \<Longrightarrow>
     (\<exists>j. c = Read src j) \<or> (\<exists>j buf. c = Write dst j buf)"
proof (induction E src dst i rest nw rule: copy_loop.induct)
  case (1 E src dst i rest nw)
  then show ?case
    by (subst (asm) (2) copy_loop.simps)
       (auto split: if_splits option.splits prod.splits)
qed

lemma os_call_calls: "Os c \<in> set (fst (os_call E c')) \<Longrightarrow> c = c'"
  by (auto simp: os_call_def split: option.splits)

lemma in_and_then:
  "x \<in> set (fst (and_then a b)) \<Longrightarrow> x \<in> set (fst a) \<or> x \<in> set (fst b)"
  by (cases a; cases b) (auto simp: and_then_def split: option.splits)

lemma CopyFile_call_paths:
  assumes "Os c \<in> set (fst (CopyFile_call E src_url dst_url))"
  shows "set (oscall_paths c) \<subseteq> {as_human_readable E src_url, as_human_readable E dst_url}"
  using assms
  by (auto simp: CopyFile_call_def Let_def split: sum.splits prod.splits if_splits
      dest!: in_and_then os_call_calls copy_loop_calls)

lemma prepare_delete_children_not_found:
  "snd (prepare_delete_children E cs path) \<noteq> Some (OSError FileNotFoundError)"
  by (induction cs) (auto split: prod.splits option.splits if_splits)

lemma priv_prepare_copy_children_not_found:
  "snd (priv_prepare_copy_children E cs src_url dst_url ms) \<noteq> Some (OSError FileNotFoundError)"
  by (induction cs) (auto split: prod.splits option.splits if_splits)

lemma prepare_delete_not_found_no_tasks:
  assumes "prepare_delete E c p = (ts, Some (OSError FileNotFoundError))"
  shows "ts = []"
proof (cases c)
  case (FsNode st le cs)
  with assms prepare_delete_children_not_found [of E cs p] show ?thesis
    by (auto split: sum.splits bool.splits prod.splits option.splits)
qed

lemma prepare_delete_children_append:
  "prepare_delete_children E (cs1 @ cs2) path =
     (case prepare_delete_children E cs1 path of
        (ts, Some e) \<Rightarrow> (ts, Some e)
      | (ts, None) \<Rightarrow>
          (ts @ fst (prepare_delete_children E cs2 path),
           snd (prepare_delete_children E cs2 path)))"
  by (induction cs1) (auto split: prod.splits option.splits if_splits)

lemma priv_prepare_copy_children_append:
  "priv_prepare_copy_children E (cs1 @ cs2) src_url dst_url ms =
     (case priv_prepare_copy_children E cs1 src_url dst_url ms of
        (ts, Some e) \<Rightarrow> (ts, Some e)
      | (ts, None) \<Rightarrow>
          (ts @ fst (priv_prepare_copy_children E cs2 src_url dst_url ms),
           snd (priv_prepare_copy_children E cs2 src_url dst_url ms)))"
  by (induction cs1) (auto split: prod.splits option.splits if_splits)

lemma priv_prepare_copy_vanished_no_tasks:
  assumes "priv_prepare_copy E c src_url dst_url ms = (ts, r)"
    and "node_stat c = Inl FileNotFoundError"
  shows "ts = []"
proof (cases c)
  case (FsNode st le cs)
  with assms show ?thesis
    by (auto simp: is_dir_def stat_def Let_def split: sum.splits prod.splits if_splits)
qed

lemma priv_prepare_copy_not_found_tasks:
  assumes "priv_prepare_copy E c src_url dst_url ms = (ts, Some (OSError FileNotFoundError))"
  shows "ts = []
     \<or> (\<exists>src_path dst_path.
           priv_check_transfer_precnds E src_url dst_url = Inr (src_path, dst_path)
           \<and> is_dir E (node_stat c) src_path = Inr True
           \<and> ts = [Task (''Creating '' @ basename E dst_url) None (Fn_mkdir dst_path)])"
proof (cases c)
  case (FsNode st le cs)
  with assms priv_prepare_copy_children_not_found [of E cs src_url dst_url ms] show ?thesis
    by (auto split: sum.splits bool.splits prod.splits if_splits)
qed

lemma fsnode_children_induct [case_names Node Nil Cons]:
  assumes node: "\<And>st le cs. Q cs \<Longrightarrow> P (FsNode st le cs)"
    and nil: "Q []"
    and cons: "\<And>name c rest. P c \<Longrightarrow> Q rest \<Longrightarrow> Q ((name, c) # rest)"
  shows "P n" and "Q cs"
proof -
  have list: "Q cs" if "\<And>c. c \<in> snd ` set cs \<Longrightarrow> P c" for cs
    using that
  proof (induction cs)
    case Nil
    show ?case by (rule nil)
  next
    case (Cons x rest)
    obtain name c where x: "x = (name, c)" by (cases x)
    have "P c" using Cons.prems x by simp
    moreover have "Q rest" using Cons by simp
    ultimately show ?case unfolding x by (rule cons)
  qed
  have all: "P n" for n
  proof (induction n)
    case (FsNode st le cs)
    have "Q cs"
    proof (rule list)
      fix c assume "c \<in> snd ` set cs"
      then obtain name where "(name, c) \<in> set cs" by force
      then show "P c" using FsNode [of "(name, c)" c] by simp
    qed
    then show ?case by (rule node)
  qed
  show "P n" by (rule all)
  show "Q cs" by (rule list) (rule all)
qed

lemma stable_plan:
  "stable E n src_url dst_url \<Longrightarrow>
     snd (priv_prepare_copy E n src_url dst_url ms) = None
     \<and> length (filter is_creating (fst (priv_prepare_copy E n src_url dst_url ms)))
         = count_dirs n"
  "stable_children E cs src_url dst_url \<Longrightarrow>
     priv_prepare_copy_children E cs src_url dst_url ms =
       (concat (map (\<lambda>(name, c).
           fst (priv_prepare_copy E c (url_join E src_url name) (url_join E dst_url name) ms)) cs),
        None)
     \<and> length (filter is_creating (fst (priv_prepare_copy_children E cs src_url dst_url ms)))
         = count_dirs_children cs"
proof (induction n and cs arbitrary: src_url dst_url and src_url dst_url
    rule: fsnode_children_induct)
  case (Node st le cs)
  from Node.prems obtain src_path dst_path s where
    chk: "priv_check_transfer_precnds E src_url dst_url = Inr (src_path, dst_path)"
    and abs: "isabs E (priv_url_to_os_path E src_path)"
    and st: "st = Inr s"
    and dir: "st_isdir s \<Longrightarrow> le = None \<and> stable_children E cs src_url dst_url"
    by (auto split: sum.splits prod.splits if_splits)
  show ?case
  proof (cases "st_isdir s")
    case True
    with dir have le: "le = None" and kids: "stable_children E cs src_url dst_url"
      by simp_all
    note IH = Node.IH [OF kids]
    from IH [THEN conjunct1] IH [THEN conjunct2] True chk abs st le show ?thesis
      by (simp add: is_dir_def stat_def iterdir_def)
  next
    case False
    with chk abs st show ?thesis
      by (simp add: is_dir_def stat_def size_bytes_def CopyFile_def)
  qed
next
  case Nil
  show ?case by simp
next
  case (Cons name c rest)
  from Cons.prems have c: "stable E c (url_join E src_url name) (url_join E dst_url name)"
    and rest: "stable_children E rest src_url dst_url"
    by simp_all
  note c' = Cons.IH(1) [OF c] and rest' = Cons.IH(2) [OF rest]
  from c' [THEN conjunct1] c' [THEN conjunct2] rest' [THEN conjunct1] rest' [THEN conjunct2]
  show ?case
    by (cases "priv_prepare_copy E c (url_join E src_url name) (url_join E dst_url name) ms")
       simp
qed


lemma stable_children_member:
  "stable_children E cs src_url dst_url \<Longrightarrow> (name, c) \<in> set cs \<Longrightarrow>
     stable E c (url_join E src_url name) (url_join E dst_url name)"
  by (induction cs) auto

lemma CopyFile_call_exists_raises:
  assumes "splitscheme E dst_url = Inr (dst_scheme, dst_urlpath)"
    and "exists E dst_urlpath = Inl e"
  shows "CopyFile_call E src_url dst_url = ([], Some e)"
  using assms by (simp add: CopyFile_call_def)

lemma exists_raises_os_error:
  assumes "exists E path = Inl e"
  shows "\<exists>e'. e = OSError e'"
  using assms
  by (cases "path_exists E (priv_url_to_os_path E path)")
     (auto simp: exists_def Let_def split: if_splits)

lemma CopyFile_call_symlink:
  assumes "splitscheme E dst_url = Inr (dst_scheme, dst_urlpath)"
    and "islink E (as_human_readable E src_url)"
    and "exists E dst_urlpath = Inr dst_existed"
  shows "CopyFile_call E src_url dst_url =
     (case readlink E (as_human_readable E src_url) of
        Inl e \<Rightarrow> ([], Some (OSError e))
      | Inr target \<Rightarrow>
          and_then (os_call E (Symlink target (as_human_readable E dst_url)))
            (and_then
               (os_call E (Copystat (as_human_readable E src_url) (as_human_readable E dst_url)
                             False))
               (if dst_existed then ([], None) else ([NotifyAdded dst_urlpath], None))))"
  using assms
  by (auto simp: CopyFile_call_def Let_def split: sum.splits)

lemma copy_loop_canceled:
  assumes "\<forall>j<k. \<not> canceled E (i + j)"
    and "canceled E (i + k)"
    and "\<forall>j<k. os_outcome E (Read src (i + j)) = None"
    and "\<forall>j<k. os_outcome E (Write dst (i + j) (take (16 * 1024) (drop (j * (16 * 1024)) rest)))
           = None"
    and "k * (16 * 1024) < length rest + 16 * 1024"
  shows "snd (copy_loop E src dst i rest nw) = Some Canceled
     \<and> bytes_written dst (fst (copy_loop E src dst i rest nw)) = take (k * (16 * 1024)) rest
     \<and> (\<forall>e \<in> set (fst (copy_loop E src dst i rest nw)). is_copy_step src dst e)"
  using assms
proof (induction k arbitrary: i rest nw)
  case 0
  then show ?case by (simp add: copy_loop.simps [of E src dst i rest nw])
next
  case (Suc k)
  from Suc.prems(1) have go: "\<not> canceled E i" by force
  from Suc.prems(3) have rd: "os_outcome E (Read src i) = None" by force
  from Suc.prems(4) have wr: "os_outcome E (Write dst i (take (16 * 1024) rest)) = None"
    by force
  from Suc.prems(5) have more: "take (16 * 1024) rest \<noteq> []" by auto
  let ?rest = "drop (16 * 1024) rest"
  have 1: "\<forall>j<k. \<not> canceled E (Suc i + j)"
    using Suc.prems(1) by (metis Suc_less_eq add_Suc_shift)
  have 2: "canceled E (Suc i + k)"
    using Suc.prems(2) by simp
  have 3: "\<forall>j<k. os_outcome E (Read src (Suc i + j)) = None"
    using Suc.prems(3) by (metis Suc_less_eq add_Suc_shift)
  have 4: "\<forall>j<k. os_outcome E
              (Write dst (Suc i + j) (take (16 * 1024) (drop (j * (16 * 1024)) ?rest))) = None"
  proof (intro allI impI)
    fix j assume "j < k"
    then have "os_outcome E (Write dst (i + Suc j)
                 (take (16 * 1024) (drop (Suc j * (16 * 1024)) rest))) = None"
      using Suc.prems(4) by (metis Suc_less_eq)
    then show "os_outcome E
              (Write dst (Suc i + j) (take (16 * 1024) (drop (j * (16 * 1024)) ?rest))) = None"
      by (simp add: add.commute)
  qed
  have 5: "k * (16 * 1024) < length ?rest + 16 * 1024"
    using Suc.prems(5) by (cases k) auto
  note IH = Suc.IH [OF 1 2 3 4 5, of "nw + length (take (16 * 1024) rest)"]
  have tk: "take (16 * 1024) rest @ take (k * (16 * 1024)) ?rest = take (Suc k * (16 * 1024)) rest"
    by (simp add: take_add)
  obtain ev r where
    rec: "copy_loop E src dst (Suc i) ?rest (nw + length (take (16 * 1024) rest)) = (ev, r)"
    by fastforce
  from IH rec have r: "r = Some Canceled"
    and ev: "bytes_written dst ev = take (k * (16 * 1024)) ?rest"
    and steps: "\<forall>e \<in> set ev. is_copy_step src dst e"
    by simp_all
  have unfold: "copy_loop E src dst i rest nw =
      (Os (Read src i) # Os (Write dst i (take (16 * 1024) rest))
         # SetProgress (nw + length (take (16 * 1024) rest)) # ev, r)"
    using go rd wr more rec by (simp add: copy_loop.simps [of E src dst i rest nw])
  from r ev steps tk show ?case
    unfolding unfold by simp
qed

section \<open>The precondition check\<close>

text \<open>
  C3. The transfer precondition check compares each of the two schemes with the scheme
  of this file system, \<^verbatim>\<open>file://\<close>, not with each other. For two URLs that split:
  the check fails with \<open>UnsupportedOperation\<close> exactly when one of the schemes is not
  \<^verbatim>\<open>file://\<close>; so it fails whenever the two schemes differ, and it does not raise
  \<open>UnsupportedOperation\<close> when both are \<^verbatim>\<open>file://\<close>.
\<close>

theorem check_transfer_unsupported:
  assumes "splitscheme E src_url = Inr (src_scheme, src_path)"
    and "splitscheme E dst_url = Inr (dst_scheme, dst_path)"
  shows "(priv_check_transfer_precnds E src_url dst_url = Inl UnsupportedOperation
            \<longleftrightarrow> src_scheme \<noteq> scheme \<or> dst_scheme \<noteq> scheme)
         \<and> (src_scheme \<noteq> dst_scheme
            \<longrightarrow> priv_check_transfer_precnds E src_url dst_url = Inl UnsupportedOperation)"
  using assms by (auto simp: priv_check_transfer_precnds_def)

theorem check_transfer_unsupported_witness:
  "priv_check_transfer_precnds posix_env ''file:///a'' ''ftp:///b'' = Inl UnsupportedOperation
   \<and> priv_check_transfer_precnds posix_env ''file:///a'' ''file:///b'' \<noteq> Inl UnsupportedOperation"
  using check_transfer_unsupported [of posix_env "''file:///a''" "''file://''" "''/a''"
      "''ftp:///b''" "''ftp://''" "''/b''"]
    check_transfer_unsupported [of posix_env "''file:///a''" "''file://''" "''/a''"
      "''file:///b''" "''file://''" "''/b''"]
  by (simp add: posix_env_def scheme_def)

text \<open>
  As C3 is written, two equal schemes never give \<open>UnsupportedOperation\<close>. Two
  \<^verbatim>\<open>ftp://\<close> URLs have equal schemes, and the check raises it.
\<close>

theorem check_transfer_equal_schemes_counterexample:
  "splitscheme posix_env ''ftp:///a'' = Inr (''ftp://'', ''/a'')
   \<and> splitscheme posix_env ''ftp:///b'' = Inr (''ftp://'', ''/b'')
   \<and> priv_check_transfer_precnds posix_env ''ftp:///a'' ''ftp:///b'' = Inl UnsupportedOperation"
  by (simp add: posix_env_def priv_check_transfer_precnds_def scheme_def)

section \<open>Metadata queries on a path that is not there\<close>

text \<open>
  C4. On a path that is not absolute, and on an absolute path for which \<^verbatim>\<open>os.stat\<close>
  raises \<open>FileNotFoundError\<close>, the queries \<open>is_dir\<close>, \<open>size_bytes\<close> and
  \<open>modified_datetime\<close> fail with \<open>FileNotFoundError\<close>; so does \<open>samefile\<close> when
  the path is its first argument, and when it is its second argument and the first one
  can be stat'ed. \<open>exists\<close> does not fail with not-found: on a path that is not
  absolute it returns \<open>False\<close>, and on an absolute path it returns what
  \<^verbatim>\<open>Path.exists\<close> answers, \<open>False\<close> for a path that is reported absent.
\<close>

theorem metadata_queries_not_found:
  assumes "\<not> isabs E (priv_url_to_os_path E path) \<or> a = Inl FileNotFoundError"
  shows "is_dir E a path = Inl (OSError FileNotFoundError)
         \<and> size_bytes E a path = Inl (OSError FileNotFoundError)
         \<and> modified_datetime E a path = Inl (OSError FileNotFoundError)
         \<and> samefile E a a2 path path2 = Inl (OSError FileNotFoundError)
         \<and> (stat E a1 path1 = Inr s1
              \<longrightarrow> samefile E a1 a path1 path = Inl (OSError FileNotFoundError))
         \<and> (\<not> isabs E (priv_url_to_os_path E path) \<longrightarrow> exists E path = Inr False)
         \<and> (\<forall>b. isabs E (priv_url_to_os_path E path)
                \<and> path_exists E (priv_url_to_os_path E path) = Inr b
                \<longrightarrow> exists E path = Inr b)"
proof -
  from assms have st: "stat E a path = Inl (OSError FileNotFoundError)"
    by (auto simp: stat_def filenotfounderror_def)
  have rel: "\<not> isabs E (priv_url_to_os_path E path) \<longrightarrow> exists E path = Inr False"
    by (simp add: exists_def)
  have abs: "\<forall>b. isabs E (priv_url_to_os_path E path)
                \<and> path_exists E (priv_url_to_os_path E path) = Inr b
                \<longrightarrow> exists E path = Inr b"
    by (simp add: exists_def)
  from st rel abs show ?thesis
    by (simp add: is_dir_def size_bytes_def modified_datetime_def samefile_def)
qed

theorem metadata_queries_not_found_witness:
  "is_dir posix_env (Inr \<lparr>st_isdir = True, st_size = 0, st_mtime = 0, st_dev = 1, st_ino = 2\<rparr>)
       ''a/b'' = Inl (OSError FileNotFoundError)
   \<and> exists posix_env ''a/b'' = Inr False
   \<and> size_bytes posix_env (Inl FileNotFoundError) ''/a/b'' = Inl (OSError FileNotFoundError)
   \<and> exists posix_env ''/a/b'' = Inr False"
proof -
  have rel: "\<not> isabs posix_env (priv_url_to_os_path posix_env ''a/b'')"
    by (simp add: posix_env_def priv_url_to_os_path_def scheme_def)
  have abs: "isabs posix_env (priv_url_to_os_path posix_env ''/a/b'')"
    by (simp add: posix_env_def priv_url_to_os_path_def scheme_def)
  have absent: "path_exists posix_env (priv_url_to_os_path posix_env ''/a/b'') = Inr False"
    by (simp add: posix_env_def)
  from metadata_queries_not_found [of posix_env "''a/b''"
      "Inr \<lparr>st_isdir = True, st_size = 0, st_mtime = 0, st_dev = 1, st_ino = 2\<rparr>",
      OF disjI1 [OF rel]] rel
  have 1: "is_dir posix_env
       (Inr \<lparr>st_isdir = True, st_size = 0, st_mtime = 0, st_dev = 1, st_ino = 2\<rparr>) ''a/b''
       = Inl (OSError FileNotFoundError)
     \<and> exists posix_env ''a/b'' = Inr False"
    by blast
  from metadata_queries_not_found [where E = posix_env and path = "''/a/b''"
      and a = "Inl FileNotFoundError", OF disjI2 [OF refl]] abs absent
  have 2: "size_bytes posix_env (Inl FileNotFoundError) ''/a/b'' = Inl (OSError FileNotFoundError)
     \<and> exists posix_env ''/a/b'' = Inr False"
    by blast
  from 1 2 show ?thesis by blast
qed

text \<open>
  As C4 is written, \<open>exists\<close> fails with not-found on a path that is not absolute and
  on an absolute path that does not exist. It returns \<open>False\<close> on both.
\<close>

theorem exists_not_absolute_counterexample:
  "\<not> isabs posix_env (priv_url_to_os_path posix_env ''a/b'')
   \<and> exists posix_env ''a/b'' = Inr False
   \<and> path_exists posix_env (priv_url_to_os_path posix_env ''/a/b'') = Inr False
   \<and> exists posix_env ''/a/b'' = Inr False"
  by (simp add: posix_env_def priv_url_to_os_path_def scheme_def exists_def)

section \<open>When a malformed request fails\<close>

text \<open>
  C2. A failed transfer check is raised at the call by \<open>prepare_move\<close>,
  \<open>prepare_copy\<close>, \<open>move\<close> and \<open>copy\<close>, before any task is generated or run. When
  the check passes and the source path is not absolute, the generators of move and copy
  raise \<open>FileNotFoundError\<close> before they yield a task. For a path that is not absolute,
  \<open>delete\<close> and \<open>move_to_trash\<close> raise \<open>FileNotFoundError\<close> without running a
  task, and the generators of \<open>prepare_delete\<close> and \<open>prepare_trash\<close> yield no task
  before they raise it.
\<close>

theorem precondition_failure_before_any_task:
  "(priv_check_transfer_precnds E src_url dst_url = Inl e \<longrightarrow>
      prepare_move E n dst_dir_stat src_url dst_url = Inl e
      \<and> prepare_copy E n src_url dst_url = Inl e
      \<and> move E n dst_dir_stat src_url dst_url = ([], Some e)
      \<and> copy E n src_url dst_url = ([], Some e))
   \<and> (priv_check_transfer_precnds E src_url dst_url = Inr (src_path, dst_path)
        \<and> \<not> isabs E (priv_url_to_os_path E src_path) \<longrightarrow>
        priv_prepare_move E n dst_dir_stat src_url dst_url measure_size
          = ([], Some (OSError FileNotFoundError))
        \<and> priv_prepare_copy E n src_url dst_url measure_size
          = ([], Some (OSError FileNotFoundError)))
   \<and> (\<not> isabs E (priv_url_to_os_path E path) \<longrightarrow>
        delete E n path = ([], Some (OSError FileNotFoundError))
        \<and> move_to_trash E n path = ([], Some (OSError FileNotFoundError))
        \<and> prepare_delete E n path = ([], Some (OSError FileNotFoundError))
        \<and> prepare_trash E path = ([], Some (OSError FileNotFoundError)))"
proof -
  have del: "prepare_delete E n path = ([], Some (OSError FileNotFoundError))"
    if "\<not> isabs E (priv_url_to_os_path E path)"
    using that by (cases n) (simp add: is_dir_def stat_def filenotfounderror_def)
  have tr: "prepare_trash E path = ([], Some (OSError FileNotFoundError))"
    if "\<not> isabs E (priv_url_to_os_path E path)"
    using that by (simp add: prepare_trash_def filenotfounderror_def)
  have cp: "priv_prepare_copy E n src_url dst_url measure_size
              = ([], Some (OSError FileNotFoundError))"
    if "priv_check_transfer_precnds E src_url dst_url = Inr (src_path, dst_path)"
      and "\<not> isabs E (priv_url_to_os_path E src_path)"
    using that by (cases n) (simp add: is_dir_def stat_def filenotfounderror_def)
  have mv: "priv_prepare_move E n dst_dir_stat src_url dst_url measure_size
              = ([], Some (OSError FileNotFoundError))"
    if "priv_check_transfer_precnds E src_url dst_url = Inr (src_path, dst_path)"
      and "\<not> isabs E (priv_url_to_os_path E src_path)"
    using that by (simp add: priv_prepare_move_def stat_def filenotfounderror_def)
  show ?thesis
    using del tr cp mv
    by (simp add: prepare_move_def prepare_copy_def move_def copy_def move_to_trash_def
        delete.simps and_then_def)
qed

theorem precondition_failure_before_any_task_witness:
  "prepare_move posix_env (FsNode (Inl FileNotFoundError) None []) (Inl FileNotFoundError)
      ''file:///a'' ''ftp:///b'' = Inl UnsupportedOperation
   \<and> copy posix_env (FsNode (Inl FileNotFoundError) None []) ''file:///a'' ''file://b''
      = ([], Some (ValueError ''Destination path must be absolute''))
   \<and> priv_prepare_copy posix_env (FsNode (Inl FileNotFoundError) None []) ''file://a''
        ''file:///b'' True = ([], Some (OSError FileNotFoundError))
   \<and> delete posix_env (FsNode (Inl FileNotFoundError) None []) ''a/b''
      = ([], Some (OSError FileNotFoundError))"
  using precondition_failure_before_any_task [of posix_env "''file:///a''" "''ftp:///b''"
      UnsupportedOperation "FsNode (Inl FileNotFoundError) None []" "Inl FileNotFoundError"
      "''a''" "''/b''" True "''a/b''"]
    precondition_failure_before_any_task [of posix_env "''file:///a''" "''file://b''"
      "ValueError ''Destination path must be absolute''" "FsNode (Inl FileNotFoundError) None []"
      "Inl FileNotFoundError" "''a''" "''/b''" True "''a/b''"]
    precondition_failure_before_any_task [of posix_env "''file://a''" "''file:///b''"
      UnsupportedOperation "FsNode (Inl FileNotFoundError) None []" "Inl FileNotFoundError"
      "''a''" "''/b''" True "''a/b''"]
  by (simp add: posix_env_def priv_url_to_os_path_def scheme_def priv_check_transfer_precnds_def)

text \<open>
  As C2 is written, the plan-returning entry points raise at the call. A call of
  \<open>prepare_trash\<close> or of \<open>prepare_delete\<close> with a path that is not absolute returns
  a generator; the exception comes when the first task is asked for.
\<close>

theorem prepare_trash_call_returns_counterexample:
  "\<not> isabs posix_env (priv_url_to_os_path posix_env ''a/b'')
   \<and> call_prepare_trash posix_env ''a/b'' = Inr ([], Some (OSError FileNotFoundError))
   \<and> call_prepare_delete posix_env (FsNode (Inl FileNotFoundError) None []) ''a/b''
       = Inr ([], Some (OSError FileNotFoundError))"
  by (simp add: posix_env_def priv_url_to_os_path_def scheme_def call_prepare_trash_def
      call_prepare_delete_def prepare_trash_def is_dir_def stat_def filenotfounderror_def)

section \<open>The plan of a move\<close>

text \<open>
  C1. Take a move request that passes the precondition check and for which the source
  and the parent directory of the destination can be stat'ed. If their devices are
  equal, the plan is one task of size 1, titled \<^verbatim>\<open>Moving\<close> and the base name of the
  source, and then ends; its call makes one \<^verbatim>\<open>replace\<close> of the native source path
  by the native destination path and, if that succeeds, notifies that the source was
  removed and then that the destination was added. If the devices differ, the plan is
  the copy plan for the same URLs followed, when the copy plan ends without an exception,
  by one task titled \<^verbatim>\<open>Postprocessing\<close> and the base name; an exception that ends the
  copy plan ends the move plan at the same place. The call of the last task is
  \<open>delete\<close> on the source path: for a file one \<^verbatim>\<open>remove\<close> and the notification, for
  a directory the removals planned for its children and then \<^verbatim>\<open>rmdir\<close> of the directory
  itself and the notification.
\<close>

theorem prepare_move_plan:
  assumes chk: "priv_check_transfer_precnds E src_url dst_url = Inr (src_path, dst_path)"
    and src: "stat E (node_stat n) src_path = Inr src_stat"
    and dir: "splitscheme E (dirname E dst_url) = Inr (dst_dir_scheme, dst_dir_path)"
    and dst: "stat E dst_dir_stat dst_dir_path = Inr dst_dir"
  shows
    "(st_dev src_stat = st_dev dst_dir \<longrightarrow>
        priv_prepare_move E n dst_dir_stat src_url dst_url measure_size =
          ([Task (''Moving '' @ basename E src_url) (Some 1) (Fn_rename src_url dst_url)], None))
     \<and> (st_dev src_stat \<noteq> st_dev dst_dir \<longrightarrow>
          (\<forall>ts. priv_prepare_copy E n src_url dst_url measure_size = (ts, None) \<longrightarrow>
             priv_prepare_move E n dst_dir_stat src_url dst_url measure_size =
               (ts @ [Task (''Postprocessing '' @ basename E src_url) None (Fn_delete src_path)],
                None))
          \<and> (\<forall>ts e. priv_prepare_copy E n src_url dst_url measure_size = (ts, Some e) \<longrightarrow>
             priv_prepare_move E n dst_dir_stat src_url dst_url measure_size = (ts, Some e)))
     \<and> prepare_move E n dst_dir_stat src_url dst_url =
          Inr (priv_prepare_move E n dst_dir_stat src_url dst_url True)
     \<and> call_task E n (Task title sz (Fn_rename src_url dst_url)) =
          (case os_outcome E (Replace (priv_url_to_os_path E src_path)
                                (priv_url_to_os_path E dst_path)) of
             None \<Rightarrow>
               ([Os (Replace (priv_url_to_os_path E src_path) (priv_url_to_os_path E dst_path)),
                 NotifyRemoved src_path, NotifyAdded dst_path], None)
           | Some e \<Rightarrow> ([], Some (OSError e)))
     \<and> call_task E n (Task title sz (Fn_delete src_path)) = delete E n src_path
     \<and> (\<not> st_isdir src_stat \<longrightarrow>
          delete E n src_path =
            (case os_outcome E (Remove src_path) of
               None \<Rightarrow> ([Os (Remove src_path), NotifyRemoved src_path], None)
             | Some e \<Rightarrow> ([], Some (OSError e))))
     \<and> (st_isdir src_stat \<and> node_listdir_error n = None \<longrightarrow>
          delete E n src_path =
            (case prepare_delete_children E (node_children n) src_path of
               (ts, r) \<Rightarrow>
                 and_then (run_tasks E n ts)
                   (case r of
                      Some e \<Rightarrow> ([], Some e)
                    | None \<Rightarrow>
                        (case os_outcome E (Rmdir src_path) of
                           None \<Rightarrow> ([Os (Rmdir src_path), NotifyRemoved src_path], None)
                         | Some e \<Rightarrow> ([], Some (OSError e))))))"
proof -
  note sp = check_transfer_split [OF chk]
  have plan_same: "st_dev src_stat = st_dev dst_dir \<Longrightarrow>
        priv_prepare_move E n dst_dir_stat src_url dst_url measure_size =
          ([Task (''Moving '' @ basename E src_url) (Some 1) (Fn_rename src_url dst_url)], None)"
    using chk src dir dst by (simp add: priv_prepare_move_def)
  have plan_diff: "priv_prepare_move E n dst_dir_stat src_url dst_url measure_size =
               (ts @ [Task (''Postprocessing '' @ basename E src_url) None (Fn_delete src_path)],
                None)"
    if "st_dev src_stat \<noteq> st_dev dst_dir"
      and "priv_prepare_copy E n src_url dst_url measure_size = (ts, None)" for ts
    using that chk src dir dst by (simp add: priv_prepare_move_def)
  have plan_err: "priv_prepare_move E n dst_dir_stat src_url dst_url measure_size = (ts, Some e)"
    if "st_dev src_stat \<noteq> st_dev dst_dir"
      and "priv_prepare_copy E n src_url dst_url measure_size = (ts, Some e)" for ts e
    using that chk src dir dst by (simp add: priv_prepare_move_def)
  have pub: "prepare_move E n dst_dir_stat src_url dst_url =
          Inr (priv_prepare_move E n dst_dir_stat src_url dst_url True)"
    using chk by (simp add: prepare_move_def)
  have ren: "call_task E n (Task title sz (Fn_rename src_url dst_url)) =
          (case os_outcome E (Replace (priv_url_to_os_path E src_path)
                                (priv_url_to_os_path E dst_path)) of
             None \<Rightarrow>
               ([Os (Replace (priv_url_to_os_path E src_path) (priv_url_to_os_path E dst_path)),
                 NotifyRemoved src_path, NotifyAdded dst_path], None)
           | Some e \<Rightarrow> ([], Some (OSError e)))"
    using sp by (simp add: priv_rename_def os_call_def split: option.splits)
  have isd: "is_dir E (node_stat n) src_path = Inr (st_isdir src_stat)"
    using src by (simp add: is_dir_def)
  have abs: "isabs E (priv_url_to_os_path E src_path)"
    using src by (auto simp: stat_def Let_def split: if_splits)
  have del_file: "delete E n src_path =
            (case os_outcome E (Remove src_path) of
               None \<Rightarrow> ([Os (Remove src_path), NotifyRemoved src_path], None)
             | Some e \<Rightarrow> ([], Some (OSError e)))"
    if "\<not> st_isdir src_stat"
    using that isd delete_file [of E n src_path]
    by (simp add: priv_do_delete_def os_call_def split: option.splits)
  have del_dir: "delete E n src_path =
            (case prepare_delete_children E (node_children n) src_path of
               (ts, r) \<Rightarrow>
                 and_then (run_tasks E n ts)
                   (case r of
                      Some e \<Rightarrow> ([], Some e)
                    | None \<Rightarrow>
                        (case os_outcome E (Rmdir src_path) of
                           None \<Rightarrow> ([Os (Rmdir src_path), NotifyRemoved src_path], None)
                         | Some e \<Rightarrow> ([], Some (OSError e)))))"
    if "st_isdir src_stat" and "node_listdir_error n = None"
  proof (cases n)
    case (FsNode st le cs)
    with that isd abs delete_dir [of E st src_path cs] show ?thesis
      by (simp add: priv_do_delete_def os_call_def split: option.splits prod.splits)
  qed
  show ?thesis
    using plan_same plan_diff plan_err pub ren del_file del_dir by simp
qed

theorem prepare_move_plan_witness:
  "priv_prepare_move posix_env (file_node 10) (Inr (stat_of True 0 1))
       ''file:///a/f'' ''file:///b/f'' False =
     ([Task ''Moving f'' (Some 1) (Fn_rename ''file:///a/f'' ''file:///b/f'')], None)
   \<and> priv_prepare_move posix_env (file_node 10) (Inr (stat_of True 0 2))
       ''file:///a/f'' ''file:///b/f'' True =
     ([Task ''Copying f'' (Some 10) (Fn_CopyFile ''file:///a/f'' ''file:///b/f''),
       Task ''Postprocessing f'' None (Fn_delete ''/a/f'')], None)
   \<and> call_task posix_env (file_node 10) (Task ''Postprocessing f'' None (Fn_delete ''/a/f''))
       = ([Os (Remove ''/a/f''), NotifyRemoved ''/a/f''], None)
   \<and> call_task posix_env (file_node 10)
         (Task ''Moving f'' (Some 1) (Fn_rename ''file:///a/f'' ''file:///b/f''))
       = ([Os (Replace ''/a/f'' ''/b/f''), NotifyRemoved ''/a/f'', NotifyAdded ''/b/f''], None)"
  using prepare_move_plan [of posix_env "''file:///a/f''" "''file:///b/f''" "''/a/f''" "''/b/f''"
      "file_node 10" "stat_of False 10 1" "''file://''" "''/b''" "Inr (stat_of True 0 1)"
      "stat_of True 0 1" False "''Moving f''" "Some 1"]
    prepare_move_plan [of posix_env "''file:///a/f''" "''file:///b/f''" "''/a/f''" "''/b/f''"
      "file_node 10" "stat_of False 10 1" "''file://''" "''/b''" "Inr (stat_of True 0 2)"
      "stat_of True 0 2" True "''Postprocessing f''" None]
  by (simp add: posix_eval)

section \<open>The path a removal task hands to the operating system\<close>

text \<open>
  C10. Every task that \<open>prepare_delete\<close> yields calls \<open>_do_delete\<close> on the path it
  was asked to delete or on that path extended by child names. The call hands this URL
  path itself to \<^verbatim>\<open>os.remove\<close> or \<^verbatim>\<open>os.rmdir\<close>: the native-path translation
  has no part in it, whatever it is. The other operations that change the file system
  (\<open>mkdir\<close>, \<open>touch\<close>, \<open>_rename\<close>, the trash task, \<open>CopyFile\<close>) hand over
  translated paths only.
\<close>

theorem removal_uses_url_path:
  "(\<forall>t \<in> set (fst (prepare_delete E n path)).
      \<exists>p f. task_fn t = Fn_do_delete p f \<and> (\<exists>sfx. p = path @ sfx))
   \<and> call_task E n (Task title sz (Fn_do_delete p f)) =
       (case os_outcome E (apply_delete_fn f p) of
          None \<Rightarrow> ([Os (apply_delete_fn f p), NotifyRemoved p], None)
        | Some e \<Rightarrow> ([], Some (OSError e)))
   \<and> oscall_paths (apply_delete_fn f p) = [p]
   \<and> call_task (E\<lparr>as_human_readable := h\<rparr>) n (Task title sz (Fn_do_delete p f)) =
       call_task E n (Task title sz (Fn_do_delete p f))
   \<and> (\<forall>c. Os c \<in> set (fst (mkdir E p)) \<longrightarrow> c = Mkdir (priv_url_to_os_path E p))
   \<and> (\<forall>c. Os c \<in> set (fst (touch E p)) \<longrightarrow> oscall_paths c = [priv_url_to_os_path E p])
   \<and> (\<forall>c s1 sp s2 dp.
         splitscheme E src_url = Inr (s1, sp) \<and> splitscheme E dst_url = Inr (s2, dp)
         \<and> Os c \<in> set (fst (priv_rename E src_url dst_url))
         \<longrightarrow> c = Replace (priv_url_to_os_path E sp) (priv_url_to_os_path E dp))
   \<and> (\<forall>t \<in> set (fst (prepare_trash E p)).
         task_fn t = Fn_do_trash p (priv_url_to_os_path E p))
   \<and> (\<forall>c os_path. Os c \<in> set (fst (priv_do_trash E p os_path)) \<longrightarrow> c = MoveToTrash os_path)
   \<and> (\<forall>c. Os c \<in> set (fst (CopyFile_call E src_url dst_url)) \<longrightarrow>
         set (oscall_paths c) \<subseteq> {as_human_readable E src_url, as_human_readable E dst_url})"
proof -
  have a: "\<forall>t \<in> set (fst (prepare_delete E n path)).
      \<exists>p f. task_fn t = Fn_do_delete p f \<and> (\<exists>sfx. p = path @ sfx)"
    using prepare_delete_task_paths(1) by blast
  have b: "call_task E' n (Task title sz (Fn_do_delete p f)) =
       (case os_outcome E' (apply_delete_fn f p) of
          None \<Rightarrow> ([Os (apply_delete_fn f p), NotifyRemoved p], None)
        | Some e \<Rightarrow> ([], Some (OSError e)))" for E'
    by (simp add: priv_do_delete_def os_call_def split: option.splits)
  have c: "oscall_paths (apply_delete_fn f p) = [p]"
    by (cases f) simp_all
  have d: "call_task (E\<lparr>as_human_readable := h\<rparr>) n (Task title sz (Fn_do_delete p f)) =
       call_task E n (Task title sz (Fn_do_delete p f))"
    unfolding b by simp
  have e: "\<forall>c. Os c \<in> set (fst (mkdir E p)) \<longrightarrow> c = Mkdir (priv_url_to_os_path E p)"
    by (auto simp: mkdir_def Let_def
        split: if_splits option.splits oserror.splits sum.splits bool.splits)
  have f: "\<forall>c. Os c \<in> set (fst (touch E p)) \<longrightarrow> oscall_paths c = [priv_url_to_os_path E p]"
    by (auto simp: touch_def Let_def os_call_def split: if_splits option.splits oserror.splits)
  have g: "\<forall>c s1 sp s2 dp.
         splitscheme E src_url = Inr (s1, sp) \<and> splitscheme E dst_url = Inr (s2, dp)
         \<and> Os c \<in> set (fst (priv_rename E src_url dst_url))
         \<longrightarrow> c = Replace (priv_url_to_os_path E sp) (priv_url_to_os_path E dp)"
    by (auto simp: priv_rename_def Let_def os_call_def split: option.splits)
  have h: "\<forall>t \<in> set (fst (prepare_trash E p)).
         task_fn t = Fn_do_trash p (priv_url_to_os_path E p)"
    by (simp add: prepare_trash_def Let_def)
  have i: "\<forall>c os_path. Os c \<in> set (fst (priv_do_trash E p os_path)) \<longrightarrow> c = MoveToTrash os_path"
    by (auto simp: priv_do_trash_def os_call_def split: option.splits)
  have j: "\<forall>c. Os c \<in> set (fst (CopyFile_call E src_url dst_url)) \<longrightarrow>
         set (oscall_paths c) \<subseteq> {as_human_readable E src_url, as_human_readable E dst_url}"
    using CopyFile_call_paths by blast
  from a b [of E] c d e f g h i j show ?thesis
    by (intro conjI)
qed

theorem removal_uses_url_path_witness:
  "prepare_delete backslash_env (dir_node [(''f'', file_node 3)]) ''/d'' =
     ([Task ''Deleting f'' (Some 1) (Fn_do_delete ''/d/f'' os_remove),
       Task ''Deleting d'' (Some 1) (Fn_do_delete ''/d'' os_rmdir)], None)
   \<and> call_task backslash_env (dir_node [(''f'', file_node 3)])
        (Task ''Deleting d'' (Some 1) (Fn_do_delete ''/d'' os_rmdir))
      = ([Os (Rmdir ''/d''), NotifyRemoved ''/d''], None)
   \<and> mkdir backslash_env ''/d'' = ([Os (Mkdir [CHR 0x5C, CHR ''d'']), NotifyAdded ''/d''], None)
   \<and> priv_url_to_os_path backslash_env ''/d'' = [CHR 0x5C, CHR ''d'']"
proof -
  let ?n = "dir_node [(''f'', file_node 3)]"
  note inst = removal_uses_url_path [of backslash_env ?n "''/d''" "''Deleting d''" "Some 1"
      "''/d''" os_rmdir "as_human_readable posix_env" "''file:///d''" "''file:///e''"]
  have plan: "prepare_delete backslash_env ?n ''/d'' =
     ([Task ''Deleting f'' (Some 1) (Fn_do_delete ''/d/f'' os_remove),
       Task ''Deleting d'' (Some 1) (Fn_do_delete ''/d'' os_rmdir)], None)"
    by (simp add: backslash_eval)
  have mk: "mkdir backslash_env ''/d'' = ([Os (Mkdir [CHR 0x5C, CHR ''d'']), NotifyAdded ''/d''], None)"
    by (simp add: mkdir_def backslash_eval)
  have tr: "priv_url_to_os_path backslash_env ''/d'' = [CHR 0x5C, CHR ''d'']"
    by (simp add: backslash_eval)
  from inst have "call_task backslash_env ?n
        (Task ''Deleting d'' (Some 1) (Fn_do_delete ''/d'' os_rmdir))
      = ([Os (Rmdir ''/d''), NotifyRemoved ''/d''], None)"
    by (simp add: backslash_eval)
  with plan mk tr show ?thesis by simp
qed

section \<open>Children that vanish while a directory is planned\<close>

text \<open>
  C6. In the loops over the children of a directory, in \<open>prepare_delete\<close> and in
  \<open>_prepare_copy\<close>, a \<open>FileNotFoundError\<close> that ends the plan of a child never
  reaches the consumer: the loop goes on with the next child, and neither the loop nor
  the plan of a directory that could itself be stat'ed and listed ends with
  \<open>FileNotFoundError\<close>. In a delete plan such a child has contributed no task, and
  the plan is the plan of the same directory without that child, wherever the child
  stands in the listing. In a copy plan the tasks that the child had yielded before it
  raised stay in the plan. These are none, or the one task that creates the child when
  the child is a directory; there are none if it is the child's own \<^verbatim>\<open>os.stat\<close>
  that raised (the child vanished after it was listed), and then the plan is again the
  plan without that child.
\<close>

theorem vanished_child_is_skipped:
  "(prepare_delete E c (path @ ''/'' @ name) = (ts, Some (OSError FileNotFoundError)) \<longrightarrow>
      ts = []
      \<and> prepare_delete_children E (cs1 @ (name, c) # cs2) path =
          prepare_delete_children E (cs1 @ cs2) path)
   \<and> (priv_prepare_copy E c (url_join E src_url name) (url_join E dst_url name) ms =
         (ts', Some (OSError FileNotFoundError)) \<longrightarrow>
        priv_prepare_copy_children E ((name, c) # cs2) src_url dst_url ms =
          (ts' @ fst (priv_prepare_copy_children E cs2 src_url dst_url ms),
           snd (priv_prepare_copy_children E cs2 src_url dst_url ms))
        \<and> (ts' = []
           \<or> (\<exists>child_src_path child_dst_path.
                 priv_check_transfer_precnds E (url_join E src_url name) (url_join E dst_url name)
                   = Inr (child_src_path, child_dst_path)
                 \<and> is_dir E (node_stat c) child_src_path = Inr True
                 \<and> ts' = [Task (''Creating '' @ basename E (url_join E dst_url name)) None
                              (Fn_mkdir child_dst_path)]))
        \<and> (node_stat c = Inl FileNotFoundError \<longrightarrow>
             ts' = []
             \<and> priv_prepare_copy_children E (cs1 @ (name, c) # cs2) src_url dst_url ms =
                 priv_prepare_copy_children E (cs1 @ cs2) src_url dst_url ms))
   \<and> snd (prepare_delete_children E cs path) \<noteq> Some (OSError FileNotFoundError)
   \<and> snd (priv_prepare_copy_children E cs src_url dst_url ms)
        \<noteq> Some (OSError FileNotFoundError)
   \<and> (is_dir E st path = Inr True \<and> isabs E (priv_url_to_os_path E path) \<longrightarrow>
        snd (prepare_delete E (FsNode st None cs) path) \<noteq> Some (OSError FileNotFoundError))
   \<and> (priv_check_transfer_precnds E src_url dst_url = Inr (src_path, dst_path)
        \<and> is_dir E st src_path = Inr True \<and> isabs E (priv_url_to_os_path E src_path) \<longrightarrow>
        snd (priv_prepare_copy E (FsNode st None cs) src_url dst_url ms)
          \<noteq> Some (OSError FileNotFoundError))"
proof -
  have d1: "ts = []
      \<and> prepare_delete_children E (cs1 @ (name, c) # cs2) path =
          prepare_delete_children E (cs1 @ cs2) path"
    if h: "prepare_delete E c (path @ ''/'' @ name) = (ts, Some (OSError FileNotFoundError))"
  proof -
    from h have ts: "ts = []" by (rule prepare_delete_not_found_no_tasks)
    with h have "prepare_delete_children E ((name, c) # cs2) path =
        prepare_delete_children E cs2 path"
      by (simp split: prod.splits)
    with ts show ?thesis
      by (simp only: prepare_delete_children_append [of E cs1 "(name, c) # cs2"]
          prepare_delete_children_append [of E cs1 cs2])
  qed
  have c1: "priv_prepare_copy_children E ((name, c) # cs2) src_url dst_url ms =
          (ts' @ fst (priv_prepare_copy_children E cs2 src_url dst_url ms),
           snd (priv_prepare_copy_children E cs2 src_url dst_url ms))"
    if "priv_prepare_copy E c (url_join E src_url name) (url_join E dst_url name) ms =
         (ts', Some (OSError FileNotFoundError))"
    using that by (simp split: prod.splits)
  have c2: "ts' = []
             \<and> priv_prepare_copy_children E (cs1 @ (name, c) # cs2) src_url dst_url ms =
                 priv_prepare_copy_children E (cs1 @ cs2) src_url dst_url ms"
    if h: "priv_prepare_copy E c (url_join E src_url name) (url_join E dst_url name) ms =
         (ts', Some (OSError FileNotFoundError))"
      and v: "node_stat c = Inl FileNotFoundError"
  proof -
    from h v have ts: "ts' = []" by (rule priv_prepare_copy_vanished_no_tasks)
    with c1 [OF h] have "priv_prepare_copy_children E ((name, c) # cs2) src_url dst_url ms =
        priv_prepare_copy_children E cs2 src_url dst_url ms"
      by simp
    with ts show ?thesis
      by (simp only: priv_prepare_copy_children_append [of E cs1 "(name, c) # cs2"]
          priv_prepare_copy_children_append [of E cs1 cs2])
  qed
  have c4: "ts' = []
           \<or> (\<exists>child_src_path child_dst_path.
                 priv_check_transfer_precnds E (url_join E src_url name) (url_join E dst_url name)
                   = Inr (child_src_path, child_dst_path)
                 \<and> is_dir E (node_stat c) child_src_path = Inr True
                 \<and> ts' = [Task (''Creating '' @ basename E (url_join E dst_url name)) None
                              (Fn_mkdir child_dst_path)])"
    if "priv_prepare_copy E c (url_join E src_url name) (url_join E dst_url name) ms =
         (ts', Some (OSError FileNotFoundError))"
    using that by (rule priv_prepare_copy_not_found_tasks)
  have d3: "snd (prepare_delete E (FsNode st None cs) path) \<noteq> Some (OSError FileNotFoundError)"
    if "is_dir E st path = Inr True" and "isabs E (priv_url_to_os_path E path)"
    using that prepare_delete_children_not_found [of E cs path]
    by (auto simp: iterdir_def split: prod.splits option.splits)
  have c3: "snd (priv_prepare_copy E (FsNode st None cs) src_url dst_url ms)
          \<noteq> Some (OSError FileNotFoundError)"
    if "priv_check_transfer_precnds E src_url dst_url = Inr (src_path, dst_path)"
      and "is_dir E st src_path = Inr True" and "isabs E (priv_url_to_os_path E src_path)"
    using that priv_prepare_copy_children_not_found [of E cs src_url dst_url ms]
    by (auto simp: iterdir_def split: prod.splits option.splits)
  from d1 c1 c2 c4 d3 c3 prepare_delete_children_not_found [of E cs path]
    priv_prepare_copy_children_not_found [of E cs src_url dst_url ms]
  show ?thesis by blast
qed

theorem vanished_child_is_skipped_witness:
  "prepare_delete posix_env (dir_node [(''a'', file_node 1), (''b'', gone_node), (''c'', file_node 2)])
       ''/d'' =
     ([Task ''Deleting a'' (Some 1) (Fn_do_delete ''/d/a'' os_remove),
       Task ''Deleting c'' (Some 1) (Fn_do_delete ''/d/c'' os_remove),
       Task ''Deleting d'' (Some 1) (Fn_do_delete ''/d'' os_rmdir)], None)
   \<and> priv_prepare_copy_children posix_env
        [(''a'', file_node 1), (''b'', gone_node), (''c'', file_node 2)]
        ''file:///d'' ''file:///e'' True =
      ([Task ''Copying a'' (Some 1) (Fn_CopyFile ''file:///d/a'' ''file:///e/a''),
        Task ''Copying c'' (Some 2) (Fn_CopyFile ''file:///d/c'' ''file:///e/c'')], None)"
proof -
  note inst = vanished_child_is_skipped [of posix_env gone_node "''/d''" "''b''" "[]"
      "[(''a'', file_node 1)]" "[(''c'', file_node 2)]" "''file:///d''" "''file:///e''" True "[]"
      "[]" "Inr (stat_of True 0 1)" "''/d''" "''/e''"]
  have gone_d: "prepare_delete posix_env gone_node (''/d'' @ ''/'' @ ''b'')
      = ([], Some (OSError FileNotFoundError))"
    by (simp add: posix_eval)
  have gone_c: "priv_prepare_copy posix_env gone_node (url_join posix_env ''file:///d'' ''b'')
      (url_join posix_env ''file:///e'' ''b'') True = ([], Some (OSError FileNotFoundError))"
    by (simp add: posix_eval)
  have v: "node_stat gone_node = Inl FileNotFoundError"
    by (simp add: gone_node_def)
  from inst gone_d have
    "prepare_delete_children posix_env ([(''a'', file_node 1)] @ (''b'', gone_node) # [(''c'', file_node 2)]) ''/d''
      = prepare_delete_children posix_env ([(''a'', file_node 1)] @ [(''c'', file_node 2)]) ''/d''"
    by blast
  then have d: "prepare_delete_children posix_env
        [(''a'', file_node 1), (''b'', gone_node), (''c'', file_node 2)] ''/d''
      = ([Task ''Deleting a'' (Some 1) (Fn_do_delete ''/d/a'' os_remove),
          Task ''Deleting c'' (Some 1) (Fn_do_delete ''/d/c'' os_remove)], None)"
    by (simp add: posix_eval)
  from inst gone_c v have
    "priv_prepare_copy_children posix_env
        ([(''a'', file_node 1)] @ (''b'', gone_node) # [(''c'', file_node 2)])
        ''file:///d'' ''file:///e'' True
     = priv_prepare_copy_children posix_env ([(''a'', file_node 1)] @ [(''c'', file_node 2)])
        ''file:///d'' ''file:///e'' True"
    by blast
  then have c: "priv_prepare_copy_children posix_env
        [(''a'', file_node 1), (''b'', gone_node), (''c'', file_node 2)]
        ''file:///d'' ''file:///e'' True =
      ([Task ''Copying a'' (Some 1) (Fn_CopyFile ''file:///d/a'' ''file:///e/a''),
        Task ''Copying c'' (Some 2) (Fn_CopyFile ''file:///d/c'' ''file:///e/c'')], None)"
    by (simp add: posix_eval)
  have "prepare_delete posix_env (dir_node [(''a'', file_node 1), (''b'', gone_node), (''c'', file_node 2)])
       ''/d'' =
     (case prepare_delete_children posix_env
        [(''a'', file_node 1), (''b'', gone_node), (''c'', file_node 2)] ''/d'' of
        (ts, Some e) \<Rightarrow> (ts, Some e)
      | (ts, None) \<Rightarrow> (ts @ [Task ''Deleting d'' (Some 1) (Fn_do_delete ''/d'' os_rmdir)], None))"
    unfolding dir_node_def
    by (simp add: posix_env_def scheme_def priv_url_to_os_path_def stat_def is_dir_def
        iterdir_def rsplit_last_def stat_of_def del: prepare_delete_children.simps)
  with d c show ?thesis by simp
qed

text \<open>
  As C6 is written, the tasks of a child whose planning raises not-found are left out of
  a copy plan. A child directory that can be stat'ed and whose listing raises
  \<open>FileNotFoundError\<close> has by then yielded the task that creates it; the parent
  passes over the exception, and that task is in the plan.
\<close>

theorem vanished_listing_keeps_creating_task_counterexample:
  "priv_prepare_copy posix_env (FsNode (Inr (stat_of True 0 1)) (Some FileNotFoundError) [])
       ''file:///d/b'' ''file:///e/b'' False =
     ([Task ''Creating b'' None (Fn_mkdir ''/e/b'')], Some (OSError FileNotFoundError))
   \<and> priv_prepare_copy posix_env
        (dir_node [(''b'', FsNode (Inr (stat_of True 0 1)) (Some FileNotFoundError) [])])
        ''file:///d'' ''file:///e'' False =
      ([Task ''Creating e'' None (Fn_mkdir ''/e''),
        Task ''Creating b'' None (Fn_mkdir ''/e/b'')], None)"
  by (simp add: posix_eval)

section \<open>The plan of a directory copy\<close>

text \<open>
  C5. Take a copy request whose source is a directory, in a source tree that holds
  still. The plan ends without an exception. Its first task creates the destination
  directory, and the rest is, child by child in listing order, the whole plan of that
  child: so the task that creates a directory stands before every task of its children,
  and, each child subtree being stable again, the same holds at every directory below.
  The number of creating tasks in the plan is the number of directories in the source
  subtree.
\<close>

theorem copy_plan_creates_directories_first:
  assumes stable: "stable E (FsNode (Inr s) le cs) src_url dst_url"
    and dir: "st_isdir s"
  shows "\<exists>src_path dst_path.
      priv_check_transfer_precnds E src_url dst_url = Inr (src_path, dst_path)
      \<and> priv_prepare_copy E (FsNode (Inr s) le cs) src_url dst_url ms =
          (Task (''Creating '' @ basename E dst_url) None (Fn_mkdir dst_path)
             # concat (map (\<lambda>(name, c).
                    fst (priv_prepare_copy E c (url_join E src_url name)
                           (url_join E dst_url name) ms)) cs),
           None)
      \<and> length (filter is_creating
            (fst (priv_prepare_copy E (FsNode (Inr s) le cs) src_url dst_url ms)))
          = count_dirs (FsNode (Inr s) le cs)
      \<and> (\<forall>(name, c) \<in> set cs.
            stable E c (url_join E src_url name) (url_join E dst_url name)
            \<and> (\<forall>t \<in> set (fst (priv_prepare_copy E c (url_join E src_url name)
                                  (url_join E dst_url name) ms)).
                  \<exists>j. 0 < j
                    \<and> j < length (fst (priv_prepare_copy E (FsNode (Inr s) le cs)
                                         src_url dst_url ms))
                    \<and> fst (priv_prepare_copy E (FsNode (Inr s) le cs) src_url dst_url ms) ! j
                        = t))
      \<and> fst (priv_prepare_copy E (FsNode (Inr s) le cs) src_url dst_url ms) ! 0
          = Task (''Creating '' @ basename E dst_url) None (Fn_mkdir dst_path)
      \<and> prepare_copy E (FsNode (Inr s) le cs) src_url dst_url
          = Inr (priv_prepare_copy E (FsNode (Inr s) le cs) src_url dst_url True)"
    (is "\<exists>src_path dst_path. ?C src_path dst_path")
proof -
  let ?n = "FsNode (Inr s) le cs"
  let ?kids = "concat (map (\<lambda>(name, c).
                    fst (priv_prepare_copy E c (url_join E src_url name)
                           (url_join E dst_url name) ms)) cs)"
  from stable dir obtain src_path dst_path where
    chk: "priv_check_transfer_precnds E src_url dst_url = Inr (src_path, dst_path)"
    and abs: "isabs E (priv_url_to_os_path E src_path)"
    and le: "le = None"
    and kids: "stable_children E cs src_url dst_url"
    by (auto split: sum.splits prod.splits if_splits)
  let ?mk = "Task (''Creating '' @ basename E dst_url) None (Fn_mkdir dst_path)"
  from stable_plan(2) [OF kids, of ms] have
    kids_plan: "priv_prepare_copy_children E cs src_url dst_url ms = (?kids, None)"
    by simp
  with chk abs le dir have plan: "priv_prepare_copy E ?n src_url dst_url ms = (?mk # ?kids, None)"
    by (simp add: is_dir_def stat_def iterdir_def)
  have count: "length (filter is_creating (fst (priv_prepare_copy E ?n src_url dst_url ms)))
          = count_dirs ?n"
    using stable_plan(1) [OF stable] by simp
  have order: "stable E c (url_join E src_url name) (url_join E dst_url name)
      \<and> (\<forall>t \<in> set (fst (priv_prepare_copy E c (url_join E src_url name)
                                  (url_join E dst_url name) ms)).
            \<exists>j. 0 < j \<and> j < length (?mk # ?kids) \<and> (?mk # ?kids) ! j = t)"
    if mem: "(name, c) \<in> set cs" for name c
  proof
    show "stable E c (url_join E src_url name) (url_join E dst_url name)"
      using kids mem by (rule stable_children_member)
    show "\<forall>t \<in> set (fst (priv_prepare_copy E c (url_join E src_url name)
                                  (url_join E dst_url name) ms)).
            \<exists>j. 0 < j \<and> j < length (?mk # ?kids) \<and> (?mk # ?kids) ! j = t"
    proof
      fix t
      assume "t \<in> set (fst (priv_prepare_copy E c (url_join E src_url name)
                                  (url_join E dst_url name) ms))"
      with mem have "t \<in> set ?kids" by force
      then obtain i where "i < length ?kids" and "?kids ! i = t"
        unfolding in_set_conv_nth by blast
      then have "0 < Suc i \<and> Suc i < length (?mk # ?kids) \<and> (?mk # ?kids) ! Suc i = t"
        by simp
      then show "\<exists>j. 0 < j \<and> j < length (?mk # ?kids) \<and> (?mk # ?kids) ! j = t"
        by blast
    qed
  qed
  have pub: "prepare_copy E ?n src_url dst_url = Inr (priv_prepare_copy E ?n src_url dst_url True)"
    using chk by (simp add: prepare_copy_def)
  have order': "\<forall>(name, c) \<in> set cs.
            stable E c (url_join E src_url name) (url_join E dst_url name)
            \<and> (\<forall>t \<in> set (fst (priv_prepare_copy E c (url_join E src_url name)
                                  (url_join E dst_url name) ms)).
                  \<exists>j. 0 < j
                    \<and> j < length (fst (priv_prepare_copy E ?n src_url dst_url ms))
                    \<and> fst (priv_prepare_copy E ?n src_url dst_url ms) ! j = t)"
    unfolding plan fst_conv using order by blast
  have first: "fst (priv_prepare_copy E ?n src_url dst_url ms) ! 0 = ?mk"
    unfolding plan by simp
  from chk plan count order' first pub have "?C src_path dst_path"
    by blast
  then show ?thesis by blast
qed


theorem copy_plan_creates_directories_first_witness:
  "priv_prepare_copy posix_env
       (dir_node [(''a.txt'', file_node 10), (''sub'', dir_node [(''b'', file_node 2)])])
       ''file:///src/dir'' ''file:///dst/dir'' True =
     ([Task ''Creating dir'' None (Fn_mkdir ''/dst/dir''),
       Task ''Copying a.txt'' (Some 10)
         (Fn_CopyFile ''file:///src/dir/a.txt'' ''file:///dst/dir/a.txt''),
       Task ''Creating sub'' None (Fn_mkdir ''/dst/dir/sub''),
       Task ''Copying b'' (Some 2)
         (Fn_CopyFile ''file:///src/dir/sub/b'' ''file:///dst/dir/sub/b'')], None)
   \<and> length (filter is_creating (fst (priv_prepare_copy posix_env
       (dir_node [(''a.txt'', file_node 10), (''sub'', dir_node [(''b'', file_node 2)])])
       ''file:///src/dir'' ''file:///dst/dir'' True))) = 2
   \<and> count_dirs
        (dir_node [(''a.txt'', file_node 10), (''sub'', dir_node [(''b'', file_node 2)])]) = 2"
proof -
  let ?cs = "[(''a.txt'', file_node 10), (''sub'', dir_node [(''b'', file_node 2)])]"
  have n: "dir_node ?cs = FsNode (Inr (stat_of True 0 1)) None ?cs"
    by (simp add: dir_node_def)
  have st: "stable posix_env (FsNode (Inr (stat_of True 0 1)) None ?cs)
      ''file:///src/dir'' ''file:///dst/dir''"
    by (simp add: posix_eval)
  have d: "st_isdir (stat_of True 0 1)"
    by (simp add: stat_of_def)
  have two: "count_dirs (dir_node ?cs) = 2"
    by (simp add: dir_node_def file_node_def stat_of_def)
  from copy_plan_creates_directories_first [OF st d, of True] two
  have count: "length (filter is_creating (fst (priv_prepare_copy posix_env (dir_node ?cs)
       ''file:///src/dir'' ''file:///dst/dir'' True))) = 2"
    unfolding n by auto
  have plan: "priv_prepare_copy posix_env (dir_node ?cs)
       ''file:///src/dir'' ''file:///dst/dir'' True =
     ([Task ''Creating dir'' None (Fn_mkdir ''/dst/dir''),
       Task ''Copying a.txt'' (Some 10)
         (Fn_CopyFile ''file:///src/dir/a.txt'' ''file:///dst/dir/a.txt''),
       Task ''Creating sub'' None (Fn_mkdir ''/dst/dir/sub''),
       Task ''Copying b'' (Some 2)
         (Fn_CopyFile ''file:///src/dir/sub/b'' ''file:///dst/dir/sub/b'')], None)"
    by (simp add: posix_eval)
  from plan count two show ?thesis by blast
qed

section \<open>Copying a symbolic link\<close>

text \<open>
  C7. When the source of a \<open>CopyFile\<close> task is a symbolic link, its call opens,
  reads and writes no file. If the link can be read and \<^verbatim>\<open>os.symlink\<close> succeeds, the
  first thing it does is to create a link at the native destination path whose target
  is the string read from the source link, and it creates no other link. If reading the
  link or creating the link fails, the exception comes out and nothing has been done.
  (All this when the question whether the destination exists gets an answer; if that
  question raises, its exception comes out and nothing has been done.)
\<close>

theorem copy_symlink_never_reads:
  assumes split: "splitscheme E dst_url = Inr (dst_scheme, dst_urlpath)"
    and link: "islink E (as_human_readable E src_url)"
  shows "(\<forall>c. Os c \<in> set (fst (CopyFile_call E src_url dst_url)) \<longrightarrow> \<not> is_read_or_write c)
     \<and> (\<forall>target existed.
           exists E dst_urlpath = Inr existed
           \<and> readlink E (as_human_readable E src_url) = Inr target
           \<and> os_outcome E (Symlink target (as_human_readable E dst_url)) = None \<longrightarrow>
           (\<exists>rest. fst (CopyFile_call E src_url dst_url) =
               Os (Symlink target (as_human_readable E dst_url)) # rest)
           \<and> (\<forall>t d. Os (Symlink t d) \<in> set (fst (CopyFile_call E src_url dst_url)) \<longrightarrow>
                 t = target \<and> d = as_human_readable E dst_url))
     \<and> (\<forall>target e existed.
           exists E dst_urlpath = Inr existed
           \<and> readlink E (as_human_readable E src_url) = Inr target
           \<and> os_outcome E (Symlink target (as_human_readable E dst_url)) = Some e \<longrightarrow>
           CopyFile_call E src_url dst_url = ([], Some (OSError e)))
     \<and> (\<forall>e existed.
           exists E dst_urlpath = Inr existed
           \<and> readlink E (as_human_readable E src_url) = Inl e \<longrightarrow>
           CopyFile_call E src_url dst_url = ([], Some (OSError e)))
     \<and> (\<forall>e. exists E dst_urlpath = Inl e \<longrightarrow> CopyFile_call E src_url dst_url = ([], Some e))"
proof (cases "exists E dst_urlpath")
  case (Inl e)
  from CopyFile_call_exists_raises [OF split Inl] Inl show ?thesis
    by simp
next
  case (Inr existed)
  show ?thesis
    unfolding CopyFile_call_symlink [OF split link Inr] Inr
    by (auto simp: os_call_def and_then_def split: sum.splits option.splits if_splits)
qed

theorem copy_symlink_never_reads_witness:
  "CopyFile_call link_env ''file:///a/l'' ''file:///b/l'' =
     ([Os (Symlink ''target'' ''/b/l''), Os (Copystat ''/a/l'' ''/b/l'' False),
       NotifyAdded ''/b/l''], None)
   \<and> \<not> is_read_or_write (Symlink ''target'' ''/b/l'')
   \<and> \<not> is_read_or_write (Copystat ''/a/l'' ''/b/l'' False)"
proof -
  have split: "splitscheme link_env ''file:///b/l'' = Inr (''file://'', ''/b/l'')"
    by (simp add: link_env_def posix_env_def)
  have link: "islink link_env (as_human_readable link_env ''file:///a/l'')"
    by (simp add: link_env_def posix_env_def)
  have run: "CopyFile_call link_env ''file:///a/l'' ''file:///b/l'' =
     ([Os (Symlink ''target'' ''/b/l''), Os (Copystat ''/a/l'' ''/b/l'' False),
       NotifyAdded ''/b/l''], None)"
    by (simp add: CopyFile_call_def exists_def os_call_def link_env_def posix_env_def
        priv_url_to_os_path_def scheme_def Let_def)
  from copy_symlink_never_reads [OF split link] have
    "\<forall>c. Os c \<in> set (fst (CopyFile_call link_env ''file:///a/l'' ''file:///b/l''))
        \<longrightarrow> \<not> is_read_or_write c"
    by blast
  with run show ?thesis by simp
qed

text \<open>
  C9. When the source is a symbolic link the cancellation flag has no part in the call:
  whatever the checks of the flag would find, the call does the same, and it never ends
  with \<open>Canceled\<close>. With the flag set from the start and the operating system
  accepting the calls, the link is created, the metadata are copied without following
  links, and the destination is announced as added unless it existed before (the question
  whether it existed having got an answer). The copy of
  a regular file to the same destination, with the flag set at the first check, ends
  with \<open>Canceled\<close>.
\<close>

theorem copy_symlink_ignores_cancellation:
  assumes split: "splitscheme E dst_url = Inr (dst_scheme, dst_urlpath)"
    and link: "islink E (as_human_readable E src_url)"
  shows "CopyFile_call (E\<lparr>canceled := flag\<rparr>) src_url dst_url = CopyFile_call E src_url dst_url
     \<and> snd (CopyFile_call E src_url dst_url) \<noteq> Some Canceled
     \<and> (\<forall>target existed.
           exists E dst_urlpath = Inr existed
           \<and> readlink E (as_human_readable E src_url) = Inr target
           \<and> os_outcome E (Symlink target (as_human_readable E dst_url)) = None
           \<and> os_outcome E (Copystat (as_human_readable E src_url) (as_human_readable E dst_url)
                              False) = None \<longrightarrow>
           CopyFile_call (E\<lparr>canceled := \<lambda>i. True\<rparr>) src_url dst_url =
             ([Os (Symlink target (as_human_readable E dst_url)),
               Os (Copystat (as_human_readable E src_url) (as_human_readable E dst_url) False)]
              @ (if existed then [] else [NotifyAdded dst_urlpath]),
              None))
     \<and> (\<forall>existed.
          exists E dst_urlpath = Inr existed
          \<and> \<not> islink E (as_human_readable E file_url)
          \<and> os_outcome E (OpenRead (as_human_readable E file_url)) = None
          \<and> os_outcome E (OpenWrite (as_human_readable E dst_url)) = None
          \<and> canceled E 0 \<longrightarrow>
          snd (CopyFile_call E file_url dst_url) = Some Canceled)"
proof -
  have same: "CopyFile_call (E\<lparr>canceled := f\<rparr>) src_url dst_url = CopyFile_call E src_url dst_url"
    for f
    using split link
    by (simp add: CopyFile_call_def exists_def os_call_def priv_url_to_os_path_def Let_def
        split: sum.splits)
  have never: "snd (CopyFile_call E src_url dst_url) \<noteq> Some Canceled"
  proof (cases "exists E dst_urlpath")
    case (Inl e)
    from exists_raises_os_error [OF Inl] CopyFile_call_exists_raises [OF split Inl]
    show ?thesis by auto
  next
    case (Inr existed)
    show ?thesis
      unfolding CopyFile_call_symlink [OF split link Inr]
      by (auto simp: os_call_def and_then_def split: sum.splits option.splits if_splits)
  qed
  have run: "CopyFile_call E src_url dst_url =
             ([Os (Symlink target (as_human_readable E dst_url)),
               Os (Copystat (as_human_readable E src_url) (as_human_readable E dst_url) False)]
              @ (if existed then [] else [NotifyAdded dst_urlpath]),
              None)"
    if ex: "exists E dst_urlpath = Inr existed"
      and "readlink E (as_human_readable E src_url) = Inr target"
      and "os_outcome E (Symlink target (as_human_readable E dst_url)) = None"
      and "os_outcome E (Copystat (as_human_readable E src_url) (as_human_readable E dst_url)
                              False) = None" for target existed
    unfolding CopyFile_call_symlink [OF split link ex] using that
    by (simp add: os_call_def)
  have regular: "snd (CopyFile_call E file_url dst_url) = Some Canceled"
    if "exists E dst_urlpath = Inr existed"
      and "\<not> islink E (as_human_readable E file_url)"
      and "os_outcome E (OpenRead (as_human_readable E file_url)) = None"
      and "os_outcome E (OpenWrite (as_human_readable E dst_url)) = None"
      and "canceled E 0" for existed
    using split that
    by (simp add: CopyFile_call_def os_call_def Let_def
        copy_loop.simps [of E "as_human_readable E file_url" "as_human_readable E dst_url" 0])
  from same [of flag] same [of "\<lambda>i. True"] never run regular show ?thesis
    by simp
qed

theorem copy_symlink_ignores_cancellation_witness:
  "CopyFile_call (link_env\<lparr>canceled := \<lambda>i. True\<rparr>) ''file:///a/l'' ''file:///b/l'' =
     ([Os (Symlink ''target'' ''/b/l''), Os (Copystat ''/a/l'' ''/b/l'' False),
       NotifyAdded ''/b/l''], None)"
proof -
  have split: "splitscheme link_env ''file:///b/l'' = Inr (''file://'', ''/b/l'')"
    by (simp add: link_env_def posix_env_def)
  have link: "islink link_env (as_human_readable link_env ''file:///a/l'')"
    by (simp add: link_env_def posix_env_def)
  have src: "as_human_readable link_env ''file:///a/l'' = ''/a/l''"
    and dst: "as_human_readable link_env ''file:///b/l'' = ''/b/l''"
    by (simp_all add: link_env_def posix_env_def)
  have target: "readlink link_env ''/a/l'' = Inr ''target''"
    by (simp add: link_env_def)
  have ok: "os_outcome link_env c = None" for c
    by (simp add: link_env_def posix_env_def)
  have new: "exists link_env ''/b/l'' = Inr False"
    by (simp add: exists_def Let_def link_env_def posix_env_def priv_url_to_os_path_def
        scheme_def)
  note inst = copy_symlink_ignores_cancellation [OF split link, of "\<lambda>i. True",
      THEN conjunct2, THEN conjunct2, THEN conjunct1, rule_format, of False "''target''",
      unfolded src dst]
  from inst [OF conjI [OF new conjI [OF target conjI [OF ok ok]]]] show ?thesis
    by simp
qed

section \<open>Cancelling the copy of a regular file\<close>

text \<open>
  C8. Take the copy of a regular file whose two files open, the question whether the
  destination exists having got an answer. Let the first \<open>k\<close> checks
  of the cancellation flag find it unset and the next one find it set, the reads and
  writes of those \<open>k\<close> rounds succeed, and each of those rounds have bytes to write.
  Then the call ends with \<open>Canceled\<close>, not with an error of the operating system.
  What has been written to the destination is the first \<open>k\<close> chunks of
  \<^verbatim>\<open>16 * 1024\<close> bytes of the source: nothing if \<open>k = 0\<close>, and otherwise what had
  been written at the last check that found the flag unset, plus one chunk of at most
  \<^verbatim>\<open>16 * 1024\<close> bytes. The trace holds nothing but the two opens, the reads, the
  writes and the progress updates: the destination is neither removed nor given the
  metadata of the source, and no notification is sent.
\<close>

theorem copy_cancel_within_one_chunk:
  assumes split: "splitscheme E dst_url = Inr (dst_scheme, dst_urlpath)"
    and existed: "exists E dst_urlpath = Inr dst_existed"
    and reg: "\<not> islink E (as_human_readable E src_url)"
    and open_src: "os_outcome E (OpenRead (as_human_readable E src_url)) = None"
    and open_dst: "os_outcome E (OpenWrite (as_human_readable E dst_url)) = None"
    and unset: "\<forall>j<k. \<not> canceled E j"
    and set: "canceled E k"
    and io: "\<forall>j<k. os_outcome E (Read (as_human_readable E src_url) j) = None
               \<and> os_outcome E (Write (as_human_readable E dst_url) j
                     (take (16 * 1024)
                        (drop (j * (16 * 1024)) (file_bytes E (as_human_readable E src_url)))))
                   = None"
    and mid: "k * (16 * 1024) < length (file_bytes E (as_human_readable E src_url)) + 16 * 1024"
  shows "snd (CopyFile_call E src_url dst_url) = Some Canceled
     \<and> bytes_written (as_human_readable E dst_url) (fst (CopyFile_call E src_url dst_url))
         = take (k * (16 * 1024)) (file_bytes E (as_human_readable E src_url))
     \<and> (k = 0 \<longrightarrow>
          bytes_written (as_human_readable E dst_url) (fst (CopyFile_call E src_url dst_url)) = [])
     \<and> (\<forall>m. k = Suc m \<longrightarrow>
          (\<exists>chunk. length chunk \<le> 16 * 1024
             \<and> bytes_written (as_human_readable E dst_url)
                  (fst (CopyFile_call E src_url dst_url))
                 = take (m * (16 * 1024)) (file_bytes E (as_human_readable E src_url)) @ chunk))
     \<and> (\<forall>e \<in> set (fst (CopyFile_call E src_url dst_url)).
          is_copy_step (as_human_readable E src_url) (as_human_readable E dst_url) e)"
proof -
  let ?src = "as_human_readable E src_url" and ?dst = "as_human_readable E dst_url"
  let ?loop = "copy_loop E ?src ?dst 0 (file_bytes E ?src) 0"
  have loop: "snd ?loop = Some Canceled
     \<and> bytes_written ?dst (fst ?loop) = take (k * (16 * 1024)) (file_bytes E ?src)
     \<and> (\<forall>e \<in> set (fst ?loop). is_copy_step ?src ?dst e)"
    using unset set io mid by (intro copy_loop_canceled) simp_all
  obtain ev where ev: "?loop = (ev, Some Canceled)"
    using loop by (cases ?loop) simp
  have call: "CopyFile_call E src_url dst_url =
      (Os (OpenRead ?src) # Os (OpenWrite ?dst) # ev, Some Canceled)"
    using split existed reg open_src open_dst ev
    by (simp add: CopyFile_call_def os_call_def Let_def)
  have written: "bytes_written ?dst (fst (CopyFile_call E src_url dst_url))
      = take (k * (16 * 1024)) (file_bytes E ?src)"
    using loop ev unfolding call by simp
  have steps: "\<forall>e \<in> set (fst (CopyFile_call E src_url dst_url)). is_copy_step ?src ?dst e"
    using loop ev unfolding call by simp
  have one: "\<exists>chunk. length chunk \<le> 16 * 1024
             \<and> bytes_written ?dst (fst (CopyFile_call E src_url dst_url))
                 = take (m * (16 * 1024)) (file_bytes E ?src) @ chunk"
    if "k = Suc m" for m
  proof -
    have "take (k * (16 * 1024)) (file_bytes E ?src)
        = take (m * (16 * 1024)) (file_bytes E ?src)
          @ take (16 * 1024) (drop (m * (16 * 1024)) (file_bytes E ?src))"
    proof -
      have "k * (16 * 1024) = m * (16 * 1024) + 16 * 1024"
        unfolding that by simp
      then show ?thesis by (simp only: take_add)
    qed
    moreover have "length (take (16 * 1024) (drop (m * (16 * 1024)) (file_bytes E ?src)))
        \<le> 16 * 1024"
      by simp
    ultimately show ?thesis unfolding written by blast
  qed
  from call written steps one show ?thesis
    by simp
qed

theorem copy_cancel_within_one_chunk_witness:
  "snd (CopyFile_call cancel_env ''file:///a/f'' ''file:///b/f'') = Some Canceled
   \<and> length (bytes_written ''/b/f'' (fst (CopyFile_call cancel_env ''file:///a/f'' ''file:///b/f'')))
       = 32768"
proof -
  have split: "splitscheme cancel_env ''file:///b/f'' = Inr (''file://'', ''/b/f'')"
    by (simp add: cancel_env_def posix_env_def)
  have src: "as_human_readable cancel_env ''file:///a/f'' = ''/a/f''"
    and dst: "as_human_readable cancel_env ''file:///b/f'' = ''/b/f''"
    by (simp_all add: cancel_env_def posix_env_def)
  have new: "exists cancel_env ''/b/f'' = Inr False"
    by (simp add: exists_def Let_def cancel_env_def posix_env_def priv_url_to_os_path_def
        scheme_def)
  have reg: "\<not> islink cancel_env (as_human_readable cancel_env ''file:///a/f'')"
    by (simp add: cancel_env_def posix_env_def)
  have ok: "os_outcome cancel_env c = None" for c
    by (simp add: cancel_env_def posix_env_def)
  have unset: "\<forall>j<2. \<not> canceled cancel_env j"
    by (simp add: cancel_env_def)
  have set: "canceled cancel_env 2"
    by (simp add: cancel_env_def)
  have bytes: "file_bytes cancel_env p = replicate 40000 0" for p
    by (simp add: cancel_env_def)
  have mid: "2 * (16 * 1024)
      < length (file_bytes cancel_env (as_human_readable cancel_env ''file:///a/f'')) + 16 * 1024"
    by (simp add: bytes)
  from copy_cancel_within_one_chunk [OF split new reg ok ok unset set _ mid] ok
  have "snd (CopyFile_call cancel_env ''file:///a/f'' ''file:///b/f'') = Some Canceled
     \<and> bytes_written ''/b/f'' (fst (CopyFile_call cancel_env ''file:///a/f'' ''file:///b/f''))
         = take (2 * (16 * 1024)) (replicate 40000 0)"
    unfolding src dst bytes by simp
  then show ?thesis by simp
qed

end
